theory Spec2Isabelle
  imports Complex_Main
begin

section \<open>PANGKAH spinning-top battle: the combat simulation core\<close>

text \<open>
  The development embeds the multi-mode (arena, survival, duel) variant of the game
  component: the \<^verbatim>\<open>collisionStart\<close> handler, the keyboard handlers and the body of the
  fixed-timestep loop of \<^verbatim>\<open>initGame\<close>.

  Conventions of the embedding.
  \<^item> A JavaScript number is a \<^typ>\<open>real\<close>: rounding of IEEE doubles and the values
    NaN and infinity are abstracted away. A division whose divisor is zero gives NaN or
    an infinity in JavaScript and \<open>0\<close> in HOL, so wherever the absence of such a
    division matters the divisor is a named function and is shown to be non-zero.
  \<^item> Integer-valued counters (frames, chain hits, rounds, timers) are \<^typ>\<open>int\<close>.
  \<^item> A Matter.js body is known to the game by reference and by label. The label
    \<^verbatim>\<open>'wall'\<close> is \<open>WallB\<close>, \<^verbatim>\<open>'player'\<close> is \<open>PlayerB\<close>, and the label \<^verbatim>\<open>bot_i\<close> is
    \<open>BotB i\<close>; every site that creates a bot gives it the label of its index in the
    array \<^verbatim>\<open>bots\<close>, so \<open>BotB i\<close> also names the \<open>i\<close>-th entry of that array.
  \<^item> The physics engine is the environment: each call of \<^verbatim>\<open>Matter.Engine.update\<close>
    replaces position and velocity of all bodies by values the environment chooses and
    reports collision pairs. Forces handed to \<^verbatim>\<open>Matter.Body.applyForce\<close> leave the game
    state untouched; those of the collision handler are returned as a list, the steering
    forces of the tick are not part of the state transition.
  \<^item> Every \<^verbatim>\<open>Math.random()\<close> is an input of the step that draws it.
  \<^item> Rendering data (colours, names, trails, particles, sound, the display copies of
    React state) is left out, and so are the fields of a bot that only feed its steering
    (\<^verbatim>\<open>stateTimer\<close>, \<^verbatim>\<open>wanderAngle\<close>, \<^verbatim>\<open>personality\<close>).
  \<^item> Pausing stops the loop; a paused game runs no fixed step, while the key handlers
    stay attached.
\<close>

subsection \<open>Types\<close>

type_synonym vec = "real \<times> real"

datatype GameMode = Arena | Survival | Duel

datatype Phase = Menu | Playing | Paused | GameOver

datatype body_id = WallB nat | PlayerB | BotB nat

record body =
  position :: vec
  velocity :: vec

record Bot =
  body :: body
  rpm :: real
  alive :: bool
  lastHitFrame :: int
  chainHits :: int

record Laser =
  laser_x :: real
  laser_y :: real
  laser_vx :: real
  laser_vy :: real
  life :: int

record Bomb =
  bomb_x :: real
  bomb_y :: real
  bomb_vx :: real
  bomb_vy :: real
  timer :: int
  exploded :: bool
  explodeTimer :: int

record game =
  player :: body
  bots :: "Bot list"
  currentRPM :: real
  safeZone :: real
  safeZoneCX :: real
  safeZoneCY :: real
  szTargetX :: real
  szTargetY :: real
  keys :: "string set"
  lastSpinKey :: string
  frameCount :: int
  playerAlive :: bool
  gameMode :: GameMode
  kills :: int
  nextBotSpawnFrame :: int
  botSpawnIndex :: nat
  duelRound :: int
  duelLasers :: "Laser list"
  duelBombs :: "Bomb list"
  lastLaserFrame :: int
  lastBombFrame :: int
  duelBossMaxRPM :: real
  duelTransition :: bool
  duelTransitionTimer :: int
  lastProjectileHitFrame :: int
  gameOver :: bool
  gs_phase :: Phase
  gs_isWinner :: bool

text \<open>
  The last three fields are the React side of the session: \<open>gameOver\<close> is
  \<^verbatim>\<open>gameOverRef.current\<close>, \<open>gs_phase\<close> and \<open>gs_isWinner\<close> are the fields of the same name
  of \<^verbatim>\<open>gameState\<close>; calls of \<^verbatim>\<open>setGameState\<close> take effect in program order.
\<close>

subsection \<open>Constants\<close>

abbreviation (input) CANVAS_W :: real where "CANVAS_W \<equiv> 1200"
abbreviation (input) CANVAS_H :: real where "CANVAS_H \<equiv> 800"
abbreviation (input) CX :: real where "CX \<equiv> 600"
abbreviation (input) CY :: real where "CY \<equiv> 400"
abbreviation (input) ARENA_R :: real where "ARENA_R \<equiv> 380"
abbreviation (input) PLAYER_R :: real where "PLAYER_R \<equiv> 22"
abbreviation (input) SWEET_LOW :: real where "SWEET_LOW \<equiv> 40"
abbreviation (input) SWEET_HIGH :: real where "SWEET_HIGH \<equiv> 60"
abbreviation (input) RPM_DECAY_PER_FRAME :: real where "RPM_DECAY_PER_FRAME \<equiv> 0.4"
abbreviation (input) RPM_GAIN_PER_PRESS :: real where "RPM_GAIN_PER_PRESS \<equiv> 3"
abbreviation (input) STARTING_RPM :: real where "STARTING_RPM \<equiv> 50"
abbreviation (input) OUTSIDE_DECAY_MULT :: real where "OUTSIDE_DECAY_MULT \<equiv> 4"
abbreviation (input) OUTSIDE_GAIN_MULT :: real where "OUTSIDE_GAIN_MULT \<equiv> 0.15"
abbreviation (input) SAFE_ZONE_INITIAL :: real where "SAFE_ZONE_INITIAL \<equiv> 360"
abbreviation (input) SAFE_ZONE_MIN :: real where "SAFE_ZONE_MIN \<equiv> 0"
abbreviation (input) SAFE_ZONE_SHRINK_PER_SEC :: real where "SAFE_ZONE_SHRINK_PER_SEC \<equiv> 8"
abbreviation (input) SAFE_ZONE_DRIFT_SPEED :: real where "SAFE_ZONE_DRIFT_SPEED \<equiv> 0.8"
abbreviation (input) KNOCKBACK_BASE :: real where "KNOCKBACK_BASE \<equiv> 1.04"
abbreviation (input) KNOCKBACK_RPM_MULT :: real where "KNOCKBACK_RPM_MULT \<equiv> 1.0008"
abbreviation (input) VELOCITY_KNOCKBACK :: real where "VELOCITY_KNOCKBACK \<equiv> 1.015"
abbreviation (input) BOT_SPIN_CHANCE :: real where "BOT_SPIN_CHANCE \<equiv> 0.30"
abbreviation (input) BOT_SPIN_GAIN :: real where "BOT_SPIN_GAIN \<equiv> 6"
abbreviation (input) BOT_EMERGENCY_SPIN_CHANCE :: real where "BOT_EMERGENCY_SPIN_CHANCE \<equiv> 0.60"
abbreviation (input) BOT_EMERGENCY_SPIN_GAIN :: real where "BOT_EMERGENCY_SPIN_GAIN \<equiv> 10"
abbreviation (input) BOT_CHAIN_WINDOW :: int where "BOT_CHAIN_WINDOW \<equiv> 120"
abbreviation (input) BOT_RPM_FLOOR_INSIDE :: real where "BOT_RPM_FLOOR_INSIDE \<equiv> 20"
abbreviation (input) BOT_PASSIVE_REGEN :: real where "BOT_PASSIVE_REGEN \<equiv> 10.0"
abbreviation (input) SURVIVAL_SPAWN_INTERVAL :: int where "SURVIVAL_SPAWN_INTERVAL \<equiv> 180"
abbreviation (input) SURVIVAL_SAFE_ZONE_SHRINK :: real where "SURVIVAL_SAFE_ZONE_SHRINK \<equiv> 2"
abbreviation (input) BOSS_RPM :: real where "BOSS_RPM \<equiv> 40"
abbreviation (input) DUEL_LASER_SPEED :: real where "DUEL_LASER_SPEED \<equiv> 8"
abbreviation (input) DUEL_LASER_INTERVAL :: int where "DUEL_LASER_INTERVAL \<equiv> 12"
abbreviation (input) DUEL_BOMB_SPEED :: real where "DUEL_BOMB_SPEED \<equiv> 4"
abbreviation (input) DUEL_BOMB_INTERVAL :: int where "DUEL_BOMB_INTERVAL \<equiv> 12"
abbreviation (input) DUEL_BOMB_EXPLODE_R :: real where "DUEL_BOMB_EXPLODE_R \<equiv> 60"
abbreviation (input) DUEL_BOMB_DMG :: real where "DUEL_BOMB_DMG \<equiv> 12"
abbreviation (input) DUEL_LASER_DMG :: real where "DUEL_LASER_DMG \<equiv> 8"
abbreviation (input) DUEL_COLLISION_MULT :: real where "DUEL_COLLISION_MULT \<equiv> 3"
abbreviation (input) DUEL_SAFE_ZONE_SHRINK :: real where "DUEL_SAFE_ZONE_SHRINK \<equiv> 4"
abbreviation (input) DUEL_ROUND_TRANSITION_FRAMES :: int where "DUEL_ROUND_TRANSITION_FRAMES \<equiv> 180"
abbreviation (input) DUEL_PROJECTILE_INVULN :: int where "DUEL_PROJECTILE_INVULN \<equiv> 20"
abbreviation (input) DUEL_BOSS_SPIN_CHANCE :: real where "DUEL_BOSS_SPIN_CHANCE \<equiv> 0.10"
abbreviation (input) DUEL_BOSS_SPIN_GAIN :: real where "DUEL_BOSS_SPIN_GAIN \<equiv> 3"

definition HOLE_ANGLES :: "real list" where
  "HOLE_ANGLES = [- pi / 2, 0, pi / 2, pi]"

subsection \<open>JavaScript idioms\<close>

text \<open>\<^verbatim>\<open>d || 1\<close> on a number: the left operand unless it is falsy, that is zero.\<close>

definition or1 :: "real \<Rightarrow> real" where
  "or1 d = (if d = 0 then 1 else d)"

text \<open>\<^verbatim>\<open>toLowerCase\<close> on the ASCII letters, the only ones the handlers compare with.\<close>

definition lower_char :: "char \<Rightarrow> char" where
  "lower_char c =
     (case map_of (zip ''ABCDEFGHIJKLMNOPQRSTUVWXYZ'' ''abcdefghijklmnopqrstuvwxyz'') c of
        Some d \<Rightarrow> d
      | None \<Rightarrow> c)"

definition toLowerCase :: "string \<Rightarrow> string" where
  "toLowerCase s = map lower_char s"

text \<open>\<^verbatim>\<open>s.includes(k)\<close>: \<open>k\<close> occurs in \<open>s\<close> as a contiguous substring.\<close>

fun str_includes :: "string \<Rightarrow> string \<Rightarrow> bool" where
  "str_includes [] k = (k = [])"
| "str_includes (c # s) k = (take (length k) (c # s) = k \<or> str_includes s k)"

subsection \<open>Helpers of the session\<close>

definition dist2Center :: "body \<Rightarrow> real" where
  "dist2Center b =
     (let dx = fst (position b) - CX;
          dy = snd (position b) - CY
      in sqrt (dx * dx + dy * dy))"

definition distToSafeZone :: "game \<Rightarrow> body \<Rightarrow> real" where
  "distToSafeZone g b =
     (let dx = fst (position b) - safeZoneCX g;
          dy = snd (position b) - safeZoneCY g
      in sqrt (dx * dx + dy * dy))"

text \<open>
  The body behind a reference. A wall never moves and no handler reads its position; a
  reference to a bot that is not in the array has no entry to read either.
\<close>

definition body_of :: "game \<Rightarrow> body_id \<Rightarrow> body" where
  "body_of g b =
     (case b of
        PlayerB \<Rightarrow> player g
      | BotB i \<Rightarrow> (if i < length (bots g) then body (bots g ! i)
                   else \<lparr>position = (0, 0), velocity = (0, 0)\<rparr>)
      | WallB _ \<Rightarrow> \<lparr>position = (0, 0), velocity = (0, 0)\<rparr>)"

text \<open>\<^verbatim>\<open>bots.find((b) => b.body === bodyA && b.alive)\<close>, as the index of the entry.\<close>

definition find_alive :: "game \<Rightarrow> body_id \<Rightarrow> nat option" where
  "find_alive g b =
     (case b of
        BotB i \<Rightarrow> (if i < length (bots g) \<and> alive (bots g ! i) then Some i else None)
      | _ \<Rightarrow> None)"

text \<open>\<^verbatim>\<open>bots.find((b) => b.body === defender)\<close>.\<close>

definition find_bot :: "game \<Rightarrow> body_id \<Rightarrow> nat option" where
  "find_bot g b =
     (case b of
        BotB i \<Rightarrow> (if i < length (bots g) then Some i else None)
      | _ \<Rightarrow> None)"

definition is_wall :: "body_id \<Rightarrow> bool" where
  "is_wall b = (case b of WallB _ \<Rightarrow> True | _ \<Rightarrow> False)"

subsection \<open>The collision handler\<close>

text \<open>
  One pass of the loop \<^verbatim>\<open>for (const pair of event.pairs)\<close>. The handler first decides
  who attacks; \<open>None\<close> is the \<^verbatim>\<open>continue\<close> of a pair it does not treat.
\<close>

record roles =
  attacker :: body_id
  defender :: body_id
  attackerRPM :: real
  defenderRPM :: real

definition assign_roles :: "game \<Rightarrow> body_id \<times> body_id \<Rightarrow> roles option" where
  "assign_roles g pair =
     (let bodyA = fst pair; bodyB = snd pair in
      if is_wall bodyA \<or> is_wall bodyB then None
      else
        let isPlayerA = (bodyA = PlayerB);
            isPlayerB = (bodyB = PlayerB);
            botA = find_alive g bodyA;
            botB = find_alive g bodyB
        in
          if isPlayerA \<and> botB \<noteq> None then
            Some \<lparr>attacker = bodyA, defender = bodyB,
                  attackerRPM = currentRPM g, defenderRPM = rpm (bots g ! the botB)\<rparr>
          else if isPlayerB \<and> botA \<noteq> None then
            Some \<lparr>attacker = bodyB, defender = bodyA,
                  attackerRPM = currentRPM g, defenderRPM = rpm (bots g ! the botA)\<rparr>
          else if botA \<noteq> None \<and> botB \<noteq> None then
            (if rpm (bots g ! the botA) \<ge> rpm (bots g ! the botB) then
               Some \<lparr>attacker = bodyA, defender = bodyB,
                     attackerRPM = rpm (bots g ! the botA),
                     defenderRPM = rpm (bots g ! the botB)\<rparr>
             else
               Some \<lparr>attacker = bodyB, defender = bodyA,
                     attackerRPM = rpm (bots g ! the botB),
                     defenderRPM = rpm (bots g ! the botA)\<rparr>)
          else None)"

text \<open>
  The knockback axis: \<^verbatim>\<open>dist = Math.sqrt(dx * dx + dy * dy) || 1\<close>, then
  \<^verbatim>\<open>nx = dx / dist\<close> and \<^verbatim>\<open>ny = dy / dist\<close>.
\<close>

definition collision_dist :: "body \<Rightarrow> body \<Rightarrow> real" where
  "collision_dist att dfn =
     (let dx = fst (position dfn) - fst (position att);
          dy = snd (position dfn) - snd (position att)
      in or1 (sqrt (dx * dx + dy * dy)))"

definition collision_normal :: "body \<Rightarrow> body \<Rightarrow> vec" where
  "collision_normal att dfn =
     (let dx = fst (position dfn) - fst (position att);
          dy = snd (position dfn) - snd (position att);
          dist = collision_dist att dfn
      in (dx / dist, dy / dist))"

definition relSpeed :: "body \<Rightarrow> body \<Rightarrow> real" where
  "relSpeed att dfn =
     (let n = collision_normal att dfn;
          relVx = fst (velocity att) - fst (velocity dfn);
          relVy = snd (velocity att) - snd (velocity dfn)
      in \<bar>relVx * fst n + relVy * snd n\<bar>)"

text \<open>
  The variable \<^verbatim>\<open>force\<close> at its four program points: as first computed, after the
  duel-boss doubling, after the over-spin bonus (the value the self-recoil reads), and
  after the wobble bonus (the value the defender receives).
\<close>

definition isDuelBoss :: "game \<Rightarrow> roles \<Rightarrow> bool" where
  "isDuelBoss g r = (gameMode g = Duel \<and> attacker r = BotB 0)"

definition force_base :: "game \<Rightarrow> roles \<Rightarrow> real" where
  "force_base g r =
     KNOCKBACK_BASE + attackerRPM r * KNOCKBACK_RPM_MULT
       + relSpeed (body_of g (attacker r)) (body_of g (defender r)) * VELOCITY_KNOCKBACK"

definition force_boss :: "game \<Rightarrow> roles \<Rightarrow> real" where
  "force_boss g r = (if isDuelBoss g r then force_base g r * 2 else force_base g r)"

definition force_overspin :: "game \<Rightarrow> roles \<Rightarrow> real" where
  "force_overspin g r =
     (if attackerRPM r \<ge> SWEET_HIGH then force_boss g r * 1.6 else force_boss g r)"

definition force_final :: "game \<Rightarrow> roles \<Rightarrow> real" where
  "force_final g r =
     (if defenderRPM r < SWEET_LOW then force_overspin g r * 1.5 else force_overspin g r)"

text \<open>The forces handed to the physics engine, in program order: body and vector.\<close>

definition self_recoil :: "game \<Rightarrow> roles \<Rightarrow> (body_id \<times> vec) list" where
  "self_recoil g r =
     (let n = collision_normal (body_of g (attacker r)) (body_of g (defender r)) in
      if attackerRPM r \<ge> SWEET_HIGH then
        [(attacker r, (- fst n * force_overspin g r * 0.5, - snd n * force_overspin g r * 0.5))]
      else [])"

definition knockback :: "game \<Rightarrow> roles \<Rightarrow> (body_id \<times> vec) list" where
  "knockback g r =
     (let n = collision_normal (body_of g (attacker r)) (body_of g (defender r)) in
      self_recoil g r @ [(defender r, (fst n * force_final g r, snd n * force_final g r))])"

text \<open>The RPM drain of the defender.\<close>

definition playerDrain :: "game \<Rightarrow> roles \<Rightarrow> real" where
  "playerDrain g r =
     (let duelMult = (if isDuelBoss g r then DUEL_COLLISION_MULT else 1) in
      (10 + max 0 (attackerRPM r - defenderRPM r) * 0.08) * duelMult)"

definition next_chainHits :: "game \<Rightarrow> Bot \<Rightarrow> int" where
  "next_chainHits g b =
     (if frameCount g - lastHitFrame b < BOT_CHAIN_WINDOW then chainHits b + 1 else 1)"

definition chainDrain :: "game \<Rightarrow> roles \<Rightarrow> Bot \<Rightarrow> real" where
  "chainDrain g r b =
     (let base = 5 + (real_of_int (next_chainHits g b) - 1) * 5 in
      if gameMode g = Duel \<and> attacker r = PlayerB then
        let v = velocity (body_of g (attacker r));
            playerSpeed = sqrt ((fst v)\<^sup>2 + (snd v)\<^sup>2);
            momentumBonus = playerSpeed * 3
        in base + momentumBonus
      else base)"

definition drain :: "game \<Rightarrow> roles \<Rightarrow> game" where
  "drain g r =
     (if defender r = PlayerB then
        g\<lparr>currentRPM := max 0 (currentRPM g - playerDrain g r)\<rparr>
      else
        (case find_bot g (defender r) of
           None \<Rightarrow> g
         | Some i \<Rightarrow>
             let defBot = bots g ! i in
             g\<lparr>bots := (bots g)[i := defBot
                  \<lparr>rpm := max 0 (rpm defBot - chainDrain g r defBot),
                   lastHitFrame := frameCount g,
                   chainHits := next_chainHits g defBot\<rparr>]\<rparr>))"

definition collide :: "game \<Rightarrow> body_id \<times> body_id \<Rightarrow> game" where
  "collide g pair = (case assign_roles g pair of None \<Rightarrow> g | Some r \<Rightarrow> drain g r)"

definition collide_forces :: "game \<Rightarrow> body_id \<times> body_id \<Rightarrow> (body_id \<times> vec) list" where
  "collide_forces g pair = (case assign_roles g pair of None \<Rightarrow> [] | Some r \<Rightarrow> knockback g r)"

definition collisionStart :: "(body_id \<times> body_id) list \<Rightarrow> game \<Rightarrow> game" where
  "collisionStart pairs g = foldl collide g pairs"

subsection \<open>Keyboard handlers\<close>

text \<open>The gain of one accepted spin key: the local \<^verbatim>\<open>gain\<close> of the handler.\<close>

definition spin_gain :: "game \<Rightarrow> real" where
  "spin_gain g =
     (let playerDist = distToSafeZone g (player g);
          outside = (playerDist > safeZone g)
      in if outside then RPM_GAIN_PER_PRESS * OUTSIDE_GAIN_MULT else RPM_GAIN_PER_PRESS)"

definition onKeyDown :: "string \<Rightarrow> game \<Rightarrow> game" where
  "onKeyDown key g =
     (let k = toLowerCase key in
      if duelTransition g then g
      else
        let g1 = (if str_includes ''wasd'' k \<and> length k = 1
                  then g\<lparr>keys := insert k (keys g)\<rparr> else g)
        in
          if (k = ''j'' \<or> k = ''k'') \<and> playerAlive g1 then
            (if lastSpinKey g1 \<noteq> k then
               g1\<lparr>currentRPM := min 100 (currentRPM g1 + spin_gain g1), lastSpinKey := k\<rparr>
             else g1)
          else g1)"

definition onKeyUp :: "string \<Rightarrow> game \<Rightarrow> game" where
  "onKeyUp key g = g\<lparr>keys := keys g - {toLowerCase key}\<rparr>"

subsection \<open>One fixed step of the simulation\<close>

text \<open>
  What the environment supplies to one pass of the fixed-timestep loop: the outcome of
  \<^verbatim>\<open>Matter.Engine.update\<close> (the bodies as the collision handler sees them, the collision
  pairs, the bodies after the update) and the random numbers the pass draws.
\<close>

record step_env =
  mid_player :: body
  mid_bots :: "nat \<Rightarrow> body"
  pairs :: "(body_id \<times> body_id) list"
  post_player :: body
  post_bots :: "nat \<Rightarrow> body"
  rnd_hole :: real
  rnd_spawn_rpm :: real
  rnd_angle :: real
  rnd_drift :: real
  rnd_spin :: "nat \<Rightarrow> real"
  rnd_emergency :: "nat \<Rightarrow> real"

text \<open>\<^verbatim>\<open>Math.random()\<close> returns a number in \<open>[0, 1)\<close>.\<close>

definition is_random :: "real \<Rightarrow> bool" where
  "is_random r = (0 \<le> r \<and> r < 1)"

definition env_ok :: "step_env \<Rightarrow> bool" where
  "env_ok env =
     (is_random (rnd_hole env) \<and> is_random (rnd_spawn_rpm env) \<and>
      is_random (rnd_angle env) \<and> is_random (rnd_drift env) \<and>
      (\<forall>i. is_random (rnd_spin env i)) \<and> (\<forall>i. is_random (rnd_emergency env i)))"

definition set_bodies :: "body \<Rightarrow> (nat \<Rightarrow> body) \<Rightarrow> game \<Rightarrow> game" where
  "set_bodies p bs g =
     g\<lparr>player := p,
       bots := map (\<lambda>i. (bots g ! i)\<lparr>body := bs i\<rparr>) [0..<length (bots g)]\<rparr>"

definition engine_update :: "step_env \<Rightarrow> game \<Rightarrow> game" where
  "engine_update env g =
     set_bodies (post_player env) (post_bots env)
       (collisionStart (pairs env) (set_bodies (mid_player env) (mid_bots env) g))"

text \<open>Survival mode: a new bot enters through a hole.\<close>

definition survival_spawn :: "step_env \<Rightarrow> game \<Rightarrow> game" where
  "survival_spawn env g =
     (if gameMode g = Survival \<and> frameCount g \<ge> nextBotSpawnFrame g \<and> playerAlive g then
        let idx = botSpawnIndex g;
            holeAngle = HOLE_ANGLES ! nat \<lfloor>rnd_hole env * real (length HOLE_ANGLES)\<rfloor>;
            spawnDist = ARENA_R - 30;
            sx = CX + cos holeAngle * spawnDist;
            sy = CY + sin holeAngle * spawnDist;
            newBody = \<lparr>position = (sx, sy),
                       velocity = ((CX - sx) * 0.01, (CY - sy) * 0.01)\<rparr>;
            newBot = \<lparr>body = newBody, rpm = 55 + rnd_spawn_rpm env * 15, alive = True,
                      lastHitFrame = - 999, chainHits = 0\<rparr>
        in g\<lparr>bots := bots g @ [newBot],
             botSpawnIndex := idx + 1,
             nextBotSpawnFrame := frameCount g + SURVIVAL_SPAWN_INTERVAL\<rparr>
      else g)"

text \<open>The player: decay of the RPM and the elimination check.\<close>

definition player_tick :: "game \<Rightarrow> game" where
  "player_tick g =
     (if playerAlive g then
        let pDist = distToSafeZone g (player g);
            pOutside = (pDist > safeZone g);
            decay = (if pOutside then RPM_DECAY_PER_FRAME * OUTSIDE_DECAY_MULT
                     else RPM_DECAY_PER_FRAME);
            g1 = g\<lparr>currentRPM := max 0 (currentRPM g - decay)\<rparr>
        in
          if currentRPM g1 \<le> 0 \<or> dist2Center (player g1) > ARENA_R + 50 then
            g1\<lparr>playerAlive := False, gameOver := True,
               gs_phase := GameOver, gs_isWinner := False\<rparr>
          else g1
      else g)"

text \<open>The safe zone: shrink once per 60 frames, drift of the centre.\<close>

definition shrinkRate :: "game \<Rightarrow> real" where
  "shrinkRate g =
     (if gameMode g = Duel then DUEL_SAFE_ZONE_SHRINK
      else if gameMode g = Survival then SURVIVAL_SAFE_ZONE_SHRINK
      else SAFE_ZONE_SHRINK_PER_SEC)"

definition safe_zone_shrink :: "game \<Rightarrow> game" where
  "safe_zone_shrink g =
     (if frameCount g mod 60 = 0 \<and> safeZone g > SAFE_ZONE_MIN then
        g\<lparr>safeZone := max SAFE_ZONE_MIN (safeZone g - shrinkRate g)\<rparr>
      else g)"

definition safe_zone_drift :: "step_env \<Rightarrow> game \<Rightarrow> game" where
  "safe_zone_drift env g =
     (let szDx = szTargetX g - safeZoneCX g;
          szDy = szTargetY g - safeZoneCY g;
          szDist = sqrt (szDx * szDx + szDy * szDy)
      in
        if szDist > 5 then
          g\<lparr>safeZoneCX := safeZoneCX g + (szDx / szDist) * SAFE_ZONE_DRIFT_SPEED,
            safeZoneCY := safeZoneCY g + (szDy / szDist) * SAFE_ZONE_DRIFT_SPEED\<rparr>
        else
          let maxDrift = max 50 (ARENA_R - safeZone g - 40);
              angle = rnd_angle env * pi * 2;
              drift = rnd_drift env * maxDrift
          in g\<lparr>szTargetX := CX + cos angle * drift,
               szTargetY := CY + sin angle * drift\<rparr>)"

text \<open>
  A bot is eliminated. In duel mode the boss is revived for the next round and the
  session is reset, or, in round 3, the player has won.
\<close>

definition eliminate :: "nat \<Rightarrow> game \<Rightarrow> game" where
  "eliminate i g =
     (let g1 = g\<lparr>bots := (bots g)[i := (bots g ! i)\<lparr>alive := False\<rparr>],
                 kills := kills g + 1\<rparr>
      in
        if gameMode g1 = Duel then
          (if duelRound g1 < 3 then
             let r = duelRound g1 + 1;
                 newRpm = BOSS_RPM + real_of_int r * 15
             in g1\<lparr>duelRound := r,
                   duelTransition := True,
                   duelTransitionTimer := DUEL_ROUND_TRANSITION_FRAMES,
                   bots := (bots g1)[i := (bots g1 ! i)
                     \<lparr>alive := True, rpm := newRpm,
                      body := \<lparr>position = (CX + 200, CY), velocity = (0, 0)\<rparr>\<rparr>],
                   duelBossMaxRPM := newRpm,
                   player := \<lparr>position = (CX - 200, CY), velocity = (0, 0)\<rparr>,
                   currentRPM := STARTING_RPM,
                   safeZone := SAFE_ZONE_INITIAL,
                   safeZoneCX := CX,
                   safeZoneCY := CY,
                   duelLasers := [],
                   duelBombs := []\<rparr>
           else g1\<lparr>gameOver := True, gs_phase := GameOver, gs_isWinner := True\<rparr>)
        else g1)"

text \<open>RPM housekeeping of a bot that stays in play.\<close>

definition bot_rpm :: "step_env \<Rightarrow> nat \<Rightarrow> real \<Rightarrow> game \<Rightarrow> game" where
  "bot_rpm env i bDistSz g =
     (let bot = bots g ! i;
          bOutside = (bDistSz > safeZone g);
          botDecay = (if bOutside then RPM_DECAY_PER_FRAME * 0.35 * OUTSIDE_DECAY_MULT
                      else RPM_DECAY_PER_FRAME * 0.35);
          r1 = max 0 (rpm bot - botDecay);
          r2 = (if \<not> bOutside \<and> gameMode g \<noteq> Duel
                then min 90 (r1 + BOT_PASSIVE_REGEN / 60) else r1);
          r3 = (if \<not> bOutside \<and> r2 < BOT_RPM_FLOOR_INSIDE \<and> gameMode g \<noteq> Duel
                then BOT_RPM_FLOOR_INSIDE else r2);
          ch = (if frameCount g - lastHitFrame bot > BOT_CHAIN_WINDOW then 0
                else chainHits bot);
          spinChance = (if gameMode g = Duel then DUEL_BOSS_SPIN_CHANCE else BOT_SPIN_CHANCE);
          spinGain = (if gameMode g = Duel then DUEL_BOSS_SPIN_GAIN else BOT_SPIN_GAIN);
          r4 = (if rnd_spin env i < spinChance
                then min 90 (r3 + (if bOutside then spinGain * OUTSIDE_GAIN_MULT else spinGain))
                else r3);
          r5 = (if gameMode g \<noteq> Duel \<and> r4 < SWEET_LOW
                   \<and> rnd_emergency env i < BOT_EMERGENCY_SPIN_CHANCE
                then min 90 (r4 + (if bOutside
                                   then BOT_EMERGENCY_SPIN_GAIN * OUTSIDE_GAIN_MULT
                                   else BOT_EMERGENCY_SPIN_GAIN))
                else r4)
      in g\<lparr>bots := (bots g)[i := bot\<lparr>rpm := r5, chainHits := ch\<rparr>]\<rparr>)"

text \<open>
  The steering of a bot that is outside the safe zone or near its edge: the direction
  towards the centre of the zone, \<^verbatim>\<open>d = Math.sqrt(dx * dx + dy * dy) || 1\<close>. The force
  itself goes to the physics engine.
\<close>

definition survival_dist :: "game \<Rightarrow> Bot \<Rightarrow> real" where
  "survival_dist g b =
     (let dx = safeZoneCX g - fst (position (body b));
          dy = safeZoneCY g - snd (position (body b))
      in or1 (sqrt (dx * dx + dy * dy)))"

definition survival_dir :: "game \<Rightarrow> Bot \<Rightarrow> vec" where
  "survival_dir g b =
     (let dx = safeZoneCX g - fst (position (body b));
          dy = safeZoneCY g - snd (position (body b));
          d = survival_dist g b
      in (dx / d, dy / d))"

text \<open>
  One pass of \<^verbatim>\<open>for (const bot of game.bots)\<close>; the second component counts the bots
  that stay in play (\<^verbatim>\<open>aliveCount\<close>).
\<close>

definition bot_step :: "step_env \<Rightarrow> game \<times> nat \<Rightarrow> nat \<Rightarrow> game \<times> nat" where
  "bot_step env s i =
     (let g = fst s; aliveCount = snd s; bot = bots g ! i in
      if \<not> alive bot then (g, aliveCount)
      else
        let bDist = dist2Center (body bot);
            bDistSz = distToSafeZone g (body bot)
        in
          if rpm bot \<le> 0 \<or> bDist > ARENA_R + 50 then (eliminate i g, aliveCount)
          else (bot_rpm env i bDistSz g, aliveCount + 1))"

definition bot_loop :: "step_env \<Rightarrow> game \<Rightarrow> game \<times> nat" where
  "bot_loop env g = foldl (bot_step env) (g, 0) [0..<length (bots g)]"

subsection \<open>Boss weapons of the duel\<close>

definition fire_laser :: "game \<Rightarrow> game" where
  "fire_laser g =
     (let boss = bots g ! 0 in
      if duelRound g \<ge> 2 \<and> frameCount g - lastLaserFrame g \<ge> DUEL_LASER_INTERVAL then
        let dx = fst (position (player g)) - fst (position (body boss));
            dy = snd (position (player g)) - snd (position (body boss));
            d = or1 (sqrt (dx * dx + dy * dy))
        in g\<lparr>lastLaserFrame := frameCount g,
             duelLasers := duelLasers g @
               [\<lparr>laser_x = fst (position (body boss)), laser_y = snd (position (body boss)),
                 laser_vx = (dx / d) * DUEL_LASER_SPEED, laser_vy = (dy / d) * DUEL_LASER_SPEED,
                 life = 120\<rparr>]\<rparr>
      else g)"

definition fire_bomb :: "game \<Rightarrow> game" where
  "fire_bomb g =
     (let boss = bots g ! 0 in
      if duelRound g \<ge> 3 \<and> frameCount g - lastBombFrame g \<ge> DUEL_BOMB_INTERVAL then
        let dx = fst (position (player g)) - fst (position (body boss));
            dy = snd (position (player g)) - snd (position (body boss));
            d = or1 (sqrt (dx * dx + dy * dy))
        in g\<lparr>lastBombFrame := frameCount g,
             duelBombs := duelBombs g @
               [\<lparr>bomb_x = fst (position (body boss)), bomb_y = snd (position (body boss)),
                 bomb_vx = (dx / d) * DUEL_BOMB_SPEED, bomb_vy = (dy / d) * DUEL_BOMB_SPEED,
                 timer = max 30 \<lfloor>d / DUEL_BOMB_SPEED\<rfloor>,
                 exploded = False, explodeTimer = 0\<rparr>]\<rparr>
      else g)"

text \<open>
  The projectile loops run from the last index down and splice; \<open>foldr\<close> visits the
  list in that order. The second component collects the projectiles that remain.
\<close>

definition laser_step :: "Laser \<Rightarrow> game \<times> Laser list \<Rightarrow> game \<times> Laser list" where
  "laser_step l s =
     (let g = fst s; kept = snd s;
          l1 = l\<lparr>laser_x := laser_x l + laser_vx l, laser_y := laser_y l + laser_vy l,
                 life := life l - 1\<rparr>;
          ldx = laser_x l1 - fst (position (player g));
          ldy = laser_y l1 - snd (position (player g));
          lDist = sqrt (ldx * ldx + ldy * ldy)
      in
        if lDist < PLAYER_R + 6 then
          let isInvuln = (frameCount g - lastProjectileHitFrame g < DUEL_PROJECTILE_INVULN) in
          ((if \<not> isInvuln then
              g\<lparr>currentRPM := max 0 (currentRPM g - DUEL_LASER_DMG),
                lastProjectileHitFrame := frameCount g\<rparr>
            else g), kept)
        else if life l1 \<le> 0 \<or> laser_x l1 < 0 \<or> laser_x l1 > CANVAS_W
                  \<or> laser_y l1 < 0 \<or> laser_y l1 > CANVAS_H then (g, kept)
        else (g, l1 # kept))"

definition bomb_step :: "Bomb \<Rightarrow> game \<times> Bomb list \<Rightarrow> game \<times> Bomb list" where
  "bomb_step b s =
     (let g = fst s; kept = snd s in
      if \<not> exploded b then
        let b1 = b\<lparr>bomb_x := bomb_x b + bomb_vx b, bomb_y := bomb_y b + bomb_vy b,
                   timer := timer b - 1\<rparr>
        in
          if timer b1 \<le> 0 then
            let b2 = b1\<lparr>exploded := True, explodeTimer := 20\<rparr>;
                bdx = bomb_x b2 - fst (position (player g));
                bdy = bomb_y b2 - snd (position (player g));
                bDist = sqrt (bdx * bdx + bdy * bdy)
            in
              if bDist < DUEL_BOMB_EXPLODE_R then
                let isInvuln =
                      (frameCount g - lastProjectileHitFrame g < DUEL_PROJECTILE_INVULN)
                in
                  if \<not> isInvuln then
                    let falloff = 1 - (bDist / DUEL_BOMB_EXPLODE_R) in
                    (g\<lparr>currentRPM := max 0 (currentRPM g - DUEL_BOMB_DMG * falloff),
                       lastProjectileHitFrame := frameCount g\<rparr>, b2 # kept)
                  else (g, b2 # kept)
              else (g, b2 # kept)
          else (g, b1 # kept)
      else
        let b1 = b\<lparr>explodeTimer := explodeTimer b - 1\<rparr> in
        if explodeTimer b1 \<le> 0 then (g, kept) else (g, b1 # kept))"

definition update_lasers :: "game \<Rightarrow> game" where
  "update_lasers g =
     (let s = foldr laser_step (duelLasers g) (g, []) in (fst s)\<lparr>duelLasers := snd s\<rparr>)"

definition update_bombs :: "game \<Rightarrow> game" where
  "update_bombs g =
     (let s = foldr bomb_step (duelBombs g) (g, []) in (fst s)\<lparr>duelBombs := snd s\<rparr>)"

definition duel_weapons :: "game \<Rightarrow> game" where
  "duel_weapons g =
     (if gameMode g = Duel \<and> playerAlive g then
        let g1 = (if bots g \<noteq> [] \<and> alive (bots g ! 0) then fire_bomb (fire_laser g) else g)
        in update_bombs (update_lasers g1)
      else g)"

subsection \<open>The fixed-timestep loop\<close>

text \<open>The updater passed to \<^verbatim>\<open>setGameState\<close> at the end of a pass.\<close>

definition alive_count_update :: "nat \<Rightarrow> game \<Rightarrow> game" where
  "alive_count_update aliveCount g =
     (if gs_phase g \<noteq> Playing then g
      else if gameMode g = Arena \<and> aliveCount = 0 \<and> playerAlive g then
        g\<lparr>gameOver := True, gs_phase := GameOver, gs_isWinner := True\<rparr>
      else if gameMode g = Survival \<and> \<not> playerAlive g then
        g\<lparr>gs_phase := GameOver, gs_isWinner := False\<rparr>
      else g)"

text \<open>
  The body of \<^verbatim>\<open>while (game.accumulator >= FIXED_DT)\<close>. The flag \<open>isGameOver\<close> is read
  once per animation frame, before the loop. The passes of the body that only hand
  forces or a friction value to the physics engine (centre gravity, friction from RPM,
  movement of the player, separation, dodging and steering of the bots) do not change
  the session and do not appear.
\<close>

definition fixed_step :: "bool \<Rightarrow> step_env \<Rightarrow> game \<Rightarrow> game" where
  "fixed_step isGameOver env g =
     (if isGameOver then g
      else if duelTransition g then
        let g1 = g\<lparr>duelTransitionTimer := duelTransitionTimer g - 1\<rparr> in
        if duelTransitionTimer g1 \<le> 0 then g1\<lparr>duelTransition := False\<rparr> else g1
      else
        let g1 = g\<lparr>frameCount := frameCount g + 1\<rparr>;
            g2 = engine_update env g1;
            g3 = survival_spawn env g2;
            g4 = player_tick g3;
            g5 = safe_zone_drift env (safe_zone_shrink g4);
            s = bot_loop env g5;
            g7 = duel_weapons (fst s)
        in alive_count_update (snd s) g7)"

text \<open>
  One call of \<^verbatim>\<open>tick\<close> while the game is not paused: as many fixed steps as the elapsed
  time holds, one environment per step. A paused game runs no step.
\<close>

definition animation_frame :: "step_env list \<Rightarrow> game \<Rightarrow> game" where
  "animation_frame envs g =
     (let isGameOver = gameOver g in foldl (\<lambda>h env. fixed_step isGameOver env h) g envs)"

subsection \<open>Start of a match and reachable states\<close>

record init_env =
  rnd_bot_dist :: "nat \<Rightarrow> real"
  rnd_bot_rpm :: "nat \<Rightarrow> real"
  rnd_target_x :: real
  rnd_target_y :: real

definition init_ok :: "init_env \<Rightarrow> bool" where
  "init_ok ie =
     ((\<forall>i. is_random (rnd_bot_dist ie i)) \<and> (\<forall>i. is_random (rnd_bot_rpm ie i)) \<and>
      is_random (rnd_target_x ie) \<and> is_random (rnd_target_y ie))"

definition arena_bot :: "nat \<Rightarrow> init_env \<Rightarrow> nat \<Rightarrow> Bot" where
  "arena_bot botCount ie i =
     (let angle = (real i / real botCount) * pi * 2;
          dist = 180 + rnd_bot_dist ie i * 80
      in \<lparr>body = \<lparr>position = (CX + cos angle * dist, CY + sin angle * dist),
                   velocity = (0, 0)\<rparr>,
          rpm = 50 + rnd_bot_rpm ie i * 20, alive = True,
          lastHitFrame = - 999, chainHits = 0\<rparr>)"

definition boss_bot :: Bot where
  "boss_bot =
     \<lparr>body = \<lparr>position = (CX + 200, CY), velocity = (0, 0)\<rparr>,
      rpm = BOSS_RPM, alive = True, lastHitFrame = - 999, chainHits = 0\<rparr>"

definition initGame :: "GameMode \<Rightarrow> nat \<Rightarrow> init_env \<Rightarrow> game" where
  "initGame mode botCount ie =
     \<lparr>player = \<lparr>position = (CX, CY), velocity = (0, 0)\<rparr>,
      bots = (if mode = Arena then map (arena_bot botCount ie) [0..<botCount] else [])
             @ (if mode = Duel then [boss_bot] else []),
      currentRPM = STARTING_RPM,
      safeZone = SAFE_ZONE_INITIAL,
      safeZoneCX = CX,
      safeZoneCY = CY,
      szTargetX = CX + (rnd_target_x ie - 0.5) * 100,
      szTargetY = CY + (rnd_target_y ie - 0.5) * 100,
      keys = {},
      lastSpinKey = [],
      frameCount = 0,
      playerAlive = True,
      gameMode = mode,
      kills = 0,
      nextBotSpawnFrame = SURVIVAL_SPAWN_INTERVAL,
      botSpawnIndex = 0,
      duelRound = 1,
      duelLasers = [],
      duelBombs = [],
      lastLaserFrame = 0,
      lastBombFrame = 0,
      duelBossMaxRPM = BOSS_RPM,
      duelTransition = False,
      duelTransitionTimer = 0,
      lastProjectileHitFrame = - 999,
      gameOver = False,
      gs_phase = Playing,
      gs_isWinner = False\<rparr>"

text \<open>
  The states of one session: the start of a match, then key events and animation
  frames in any order.
\<close>

inductive reachable :: "game \<Rightarrow> bool" where
  start: "init_ok ie \<Longrightarrow> reachable (initGame mode botCount ie)"
| keydown: "reachable g \<Longrightarrow> reachable (onKeyDown key g)"
| keyup: "reachable g \<Longrightarrow> reachable (onKeyUp key g)"
| frame: "reachable g \<Longrightarrow> list_all env_ok envs \<Longrightarrow> reachable (animation_frame envs g)"

subsection \<open>The invariant of a session\<close>

text \<open>
  What every state of a session satisfies: the spin energy of the player within
  \<open>[0, 100]\<close>, that of every bot within \<open>[0, 90]\<close>, chain counters that are not
  negative, a safe zone that is not negative and not larger than at the start, a duel
  round from 1 to 3, and the boss maximum that belongs to the round.
\<close>

definition bot_ok :: "Bot \<Rightarrow> bool" where
  "bot_ok b = (0 \<le> rpm b \<and> rpm b \<le> 90 \<and> 0 \<le> chainHits b)"

definition all_bots_ok :: "Bot list \<Rightarrow> bool" where
  "all_bots_ok bs = (\<forall>b \<in> set bs. bot_ok b)"

definition session_inv :: "game \<Rightarrow> bool" where
  "session_inv g =
     (0 \<le> currentRPM g \<and> currentRPM g \<le> 100 \<and>
      all_bots_ok (bots g) \<and>
      0 \<le> safeZone g \<and> safeZone g \<le> SAFE_ZONE_INITIAL \<and>
      1 \<le> duelRound g \<and> duelRound g \<le> 3 \<and>
      duelBossMaxRPM g = (if duelRound g = 1 then BOSS_RPM
                          else BOSS_RPM + real_of_int (duelRound g) * 15))"

subsection \<open>Sample inputs\<close>

text \<open>A start where every random draw is one half, except the ring distance 0.\<close>

definition ie1 :: init_env where
  "ie1 = \<lparr>rnd_bot_dist = (\<lambda>_. 0), rnd_bot_rpm = (\<lambda>_. 1 / 2),
          rnd_target_x = 1 / 2, rnd_target_y = 1 / 2\<rparr>"

definition arena_start :: game where
  "arena_start = initGame Arena 1 ie1"

definition duel_start :: game where
  "duel_start = initGame Duel 0 ie1"

text \<open>The fields that the safe-zone claim follows through a fixed step.\<close>

definition zone_view :: "game \<Rightarrow> real \<times> int \<times> GameMode" where
  "zone_view g = (safeZone g, duelRound g, gameMode g)"

definition still_env :: step_env where
  "still_env =
     \<lparr>mid_player = \<lparr>position = (CX, CY), velocity = (0, 0)\<rparr>,
      mid_bots = (\<lambda>_. \<lparr>position = (CX + 200, CY), velocity = (0, 0)\<rparr>),
      pairs = [],
      post_player = \<lparr>position = (CX, CY), velocity = (0, 0)\<rparr>,
      post_bots = (\<lambda>_. \<lparr>position = (CX + 200, CY), velocity = (0, 0)\<rparr>),
      rnd_hole = 0, rnd_spawn_rpm = 0, rnd_angle = 0, rnd_drift = 0,
      rnd_spin = (\<lambda>_. 1 / 2), rnd_emergency = (\<lambda>_. 1 / 2)\<rparr>"

text \<open>A duel in which the player moves at speed 5, and two bots of RPM 70 and 30.\<close>

definition duel_rush :: game where
  "duel_rush = duel_start\<lparr>player := \<lparr>position = (CX, CY), velocity = (3, 4)\<rparr>\<rparr>"

definition wobble_clash :: game where
  "wobble_clash = arena_start\<lparr>bots :=
     [\<lparr>body = \<lparr>position = (CX, CY), velocity = (0, 0)\<rparr>, rpm = 70, alive = True,
       lastHitFrame = - 999, chainHits = 0\<rparr>,
      \<lparr>body = \<lparr>position = (CX + 40, CY), velocity = (0, 0)\<rparr>, rpm = 30, alive = True,
       lastHitFrame = - 999, chainHits = 0\<rparr>]\<rparr>"

text \<open>The start of a duel with the round counter put to 3.\<close>

definition duel_round3 :: game where
  "duel_round3 = duel_start\<lparr>duelRound := 3, duelBossMaxRPM := 85\<rparr>"

text \<open>
  A step of the duel in which the engine reports four contacts of the player with the
  boss, and the state of that step when the loop over the bots begins.
\<close>

definition hit_env :: step_env where
  "hit_env =
     \<lparr>mid_player = \<lparr>position = (CX, CY), velocity = (0, 0)\<rparr>,
      mid_bots = (\<lambda>_. \<lparr>position = (CX + 40, CY), velocity = (0, 0)\<rparr>),
      pairs = [(PlayerB, BotB 0), (PlayerB, BotB 0), (PlayerB, BotB 0), (PlayerB, BotB 0)],
      post_player = \<lparr>position = (CX, CY), velocity = (0, 0)\<rparr>,
      post_bots = (\<lambda>_. \<lparr>position = (CX + 40, CY), velocity = (0, 0)\<rparr>),
      rnd_hole = 0, rnd_spawn_rpm = 0, rnd_angle = 1 / 2, rnd_drift = 1 / 2,
      rnd_spin = (\<lambda>_. 1 / 2), rnd_emergency = (\<lambda>_. 1 / 2)\<rparr>"

definition boss_down :: game where
  "boss_down =
     duel_start\<lparr>frameCount := 1,
       bots := [\<lparr>body = \<lparr>position = (CX + 40, CY), velocity = (0, 0)\<rparr>, rpm = 0,
                 alive = True, lastHitFrame = 1, chainHits = 4\<rparr>],
       currentRPM := 49.6, szTargetX := 575, szTargetY := 400\<rparr>"

text \<open>A survival match at the frame where the first bot is due.\<close>

definition survival_due :: game where
  "survival_due = (initGame Survival 0 ie1)\<lparr>frameCount := 180\<rparr>"

section \<open>Properties\<close>

subsection \<open>The invariant holds in every reachable state\<close>

lemma all_bots_ok_update:
  "all_bots_ok bs \<Longrightarrow> bot_ok v \<Longrightarrow> all_bots_ok (bs[i := v])"
  unfolding all_bots_ok_def
  by (metis insert_iff set_update_subset_insert subsetD)

lemma all_bots_ok_nth: "all_bots_ok bs \<Longrightarrow> i < length bs \<Longrightarrow> bot_ok (bs ! i)"
  by (simp add: all_bots_ok_def)

lemma all_bots_ok_snoc: "all_bots_ok bs \<Longrightarrow> bot_ok v \<Longrightarrow> all_bots_ok (bs @ [v])"
  by (simp add: all_bots_ok_def)

lemma all_bots_ok_bodies:
  "all_bots_ok bs \<Longrightarrow> all_bots_ok (map (\<lambda>i. (bs ! i)\<lparr>body := f i\<rparr>) [0..<length bs])"
  by (auto simp: all_bots_ok_def bot_ok_def)

lemma inv_onKeyDown: "session_inv g \<Longrightarrow> session_inv (onKeyDown key g)"
  by (auto simp: session_inv_def onKeyDown_def spin_gain_def Let_def)

lemma inv_onKeyUp: "session_inv g \<Longrightarrow> session_inv (onKeyUp key g)"
  by (simp add: session_inv_def onKeyUp_def)

lemma inv_set_bodies: "session_inv g \<Longrightarrow> session_inv (set_bodies p bs g)"
  by (simp add: session_inv_def set_bodies_def all_bots_ok_bodies)

lemma next_chainHits_pos: "0 \<le> chainHits b \<Longrightarrow> 1 \<le> next_chainHits g b"
  by (simp add: next_chainHits_def)

lemma chainDrain_nonneg: "0 \<le> chainHits b \<Longrightarrow> 0 \<le> chainDrain g r b"
proof -
  assume "0 \<le> chainHits b"
  then have "1 \<le> next_chainHits g b" by (rule next_chainHits_pos)
  then have "0 \<le> (real_of_int (next_chainHits g b) - 1) * 5" by simp
  then show ?thesis by (simp add: chainDrain_def Let_def)
qed

lemma playerDrain_nonneg: "0 \<le> playerDrain g r"
  by (simp add: playerDrain_def Let_def)

lemma inv_bots:
  "session_inv g \<Longrightarrow> all_bots_ok bs \<Longrightarrow> session_inv (g\<lparr>bots := bs\<rparr>)"
  by (simp add: session_inv_def)

lemma inv_drain: "session_inv g \<Longrightarrow> session_inv (drain g r)"
proof (cases "defender r = PlayerB")
  case True
  assume "session_inv g"
  then show ?thesis using True playerDrain_nonneg [of g r]
    by (simp add: session_inv_def drain_def)
next
  case False
  assume inv: "session_inv g"
  show ?thesis
  proof (cases "find_bot g (defender r)")
    case None
    then show ?thesis using False inv by (simp add: drain_def)
  next
    case (Some i)
    then have i: "i < length (bots g)"
      by (auto simp: find_bot_def split: body_id.splits if_splits)
    let ?b = "bots g ! i"
    have all: "all_bots_ok (bots g)" using inv by (simp add: session_inv_def)
    have ok: "bot_ok ?b" using all i by (rule all_bots_ok_nth)
    have d: "0 \<le> chainDrain g r ?b" using ok by (simp add: chainDrain_nonneg bot_ok_def)
    have n: "1 \<le> next_chainHits g ?b" using ok by (simp add: next_chainHits_pos bot_ok_def)
    have "bot_ok (?b\<lparr>rpm := max 0 (rpm ?b - chainDrain g r ?b),
                   lastHitFrame := frameCount g, chainHits := next_chainHits g ?b\<rparr>)"
      using ok d n by (simp add: bot_ok_def)
    then have "session_inv (g\<lparr>bots := (bots g)[i := ?b\<lparr>rpm := max 0 (rpm ?b - chainDrain g r ?b),
                   lastHitFrame := frameCount g, chainHits := next_chainHits g ?b\<rparr>]\<rparr>)"
      using inv all by (simp add: inv_bots all_bots_ok_update)
    then show ?thesis using False Some
      by (simp add: drain_def Let_def)
  qed
qed

lemma inv_collide: "session_inv g \<Longrightarrow> session_inv (collide g pair)"
  by (simp add: collide_def inv_drain split: option.splits)

lemma inv_collisionStart: "session_inv g \<Longrightarrow> session_inv (collisionStart ps g)"
  unfolding collisionStart_def
  by (induction ps arbitrary: g) (simp_all add: inv_collide)

lemma inv_engine_update: "session_inv g \<Longrightarrow> session_inv (engine_update env g)"
  by (simp add: engine_update_def inv_set_bodies inv_collisionStart)

lemma inv_survival_spawn:
  assumes "session_inv g" "env_ok env"
  shows "session_inv (survival_spawn env g)"
proof -
  have "is_random (rnd_spawn_rpm env)" using assms(2) by (simp add: env_ok_def)
  then have "bot_ok \<lparr>body = bd, rpm = 55 + rnd_spawn_rpm env * 15, alive = True,
                      lastHitFrame = - 999, chainHits = 0\<rparr>" for bd
    by (simp add: bot_ok_def is_random_def)
  then show ?thesis using assms(1)
    by (simp add: survival_spawn_def Let_def session_inv_def all_bots_ok_snoc)
qed

lemma inv_player_tick: "session_inv g \<Longrightarrow> session_inv (player_tick g)"
  by (simp add: session_inv_def player_tick_def Let_def)

lemma inv_safe_zone_shrink: "session_inv g \<Longrightarrow> session_inv (safe_zone_shrink g)"
  by (simp add: session_inv_def safe_zone_shrink_def shrinkRate_def)

lemma inv_safe_zone_drift: "session_inv g \<Longrightarrow> session_inv (safe_zone_drift env g)"
  by (simp add: session_inv_def safe_zone_drift_def Let_def)


lemma all_bots_ok_revive:
  assumes "all_bots_ok bs" "i < length bs" "0 \<le> R" "R \<le> 90"
  shows "all_bots_ok (bs[i := (bs ! i)\<lparr>alive := a, rpm := R, body := bd\<rparr>])"
proof -
  have "bot_ok (bs ! i)" using assms(1,2) by (rule all_bots_ok_nth)
  then have "bot_ok ((bs ! i)\<lparr>alive := a, rpm := R, body := bd\<rparr>)"
    using assms(3,4) by (simp add: bot_ok_def)
  then show ?thesis using assms(1) by (simp add: all_bots_ok_update)
qed

lemma inv_eliminate:
  assumes inv: "session_inv g" and i: "i < length (bots g)"
  shows "session_inv (eliminate i g)"
proof -
  let ?b = "bots g ! i"
  let ?g1 = "g\<lparr>bots := (bots g)[i := ?b\<lparr>alive := False\<rparr>], kills := kills g + 1\<rparr>"
  have all: "all_bots_ok (bots g)" using inv by (simp add: session_inv_def)
  have ok: "bot_ok ?b" using all i by (rule all_bots_ok_nth)
  have dead: "bot_ok (?b\<lparr>alive := False\<rparr>)" using ok by (simp add: bot_ok_def)
  have all1: "all_bots_ok (bots ?g1)" using all dead by (simp add: all_bots_ok_update)
  have inv1: "session_inv ?g1" using inv all1 by (simp add: session_inv_def)
  have r: "1 \<le> duelRound g" using inv by (simp add: session_inv_def)
  show ?thesis
  proof (cases "gameMode g = Duel")
    case False
    then show ?thesis using inv1 by (simp add: eliminate_def Let_def)
  next
    case duel: True
    show ?thesis
    proof (cases "duelRound g < 3")
      case False
      then show ?thesis using duel inv1 by (simp add: eliminate_def Let_def session_inv_def)
    next
      case True
      then show ?thesis using duel r inv1 i all
        by (simp add: eliminate_def Let_def session_inv_def all_bots_ok_revive)
    qed
  qed
qed

lemma inv_bot_rpm:
  assumes inv: "session_inv g" and i: "i < length (bots g)"
  shows "session_inv (bot_rpm env i d g)"
proof -
  let ?b = "bots g ! i"
  have all: "all_bots_ok (bots g)" using inv by (simp add: session_inv_def)
  have ok: "bot_ok ?b" using all i by (rule all_bots_ok_nth)
  have "all_bots_ok (bots (bot_rpm env i d g))"
    unfolding bot_rpm_def Let_def using ok all
    by (simp add: all_bots_ok_update bot_ok_def)
  moreover have "bot_rpm env i d g = g\<lparr>bots := bots (bot_rpm env i d g)\<rparr>"
    by (simp add: bot_rpm_def Let_def)
  ultimately show ?thesis using inv inv_bots by metis
qed

lemma length_eliminate: "length (bots (eliminate i g)) = length (bots g)"
  by (simp add: eliminate_def Let_def)

lemma length_bot_rpm: "length (bots (bot_rpm env i d g)) = length (bots g)"
  by (simp add: bot_rpm_def Let_def)

lemma length_bot_step: "length (bots (fst (bot_step env s i))) = length (bots (fst s))"
  by (simp add: bot_step_def Let_def length_eliminate length_bot_rpm)

lemma inv_bot_step:
  "session_inv (fst s) \<Longrightarrow> i < length (bots (fst s)) \<Longrightarrow> session_inv (fst (bot_step env s i))"
  by (simp add: bot_step_def Let_def inv_eliminate inv_bot_rpm)

lemma inv_bot_steps:
  "session_inv (fst s) \<Longrightarrow> \<forall>i \<in> set js. i < length (bots (fst s)) \<Longrightarrow>
     session_inv (fst (foldl (bot_step env) s js))"
proof (induction js arbitrary: s)
  case Nil
  then show ?case by simp
next
  case (Cons j js)
  have "session_inv (fst (bot_step env s j))" using Cons.prems by (simp add: inv_bot_step)
  moreover have "\<forall>i \<in> set js. i < length (bots (fst (bot_step env s j)))"
    using Cons.prems by (simp add: length_bot_step)
  ultimately show ?case using Cons.IH by simp
qed

lemma inv_bot_loop: "session_inv g \<Longrightarrow> session_inv (fst (bot_loop env g))"
  unfolding bot_loop_def by (rule inv_bot_steps) simp_all

lemma inv_fire_laser: "session_inv g \<Longrightarrow> session_inv (fire_laser g)"
  by (simp add: session_inv_def fire_laser_def Let_def)

lemma inv_fire_bomb: "session_inv g \<Longrightarrow> session_inv (fire_bomb g)"
  by (simp add: session_inv_def fire_bomb_def Let_def)

lemma inv_laser_step: "session_inv (fst s) \<Longrightarrow> session_inv (fst (laser_step l s))"
  by (simp add: session_inv_def laser_step_def Let_def)

lemma inv_bomb_step: "session_inv (fst s) \<Longrightarrow> session_inv (fst (bomb_step b s))"
proof -
  assume inv: "session_inv (fst s)"
  have "0 \<le> DUEL_BOMB_DMG * (1 - d / DUEL_BOMB_EXPLODE_R)" if "d < DUEL_BOMB_EXPLODE_R" for d :: real
    using that by simp
  then show ?thesis using inv
    by (simp add: session_inv_def bomb_step_def Let_def)
qed

lemma inv_lasers: "session_inv (fst s) \<Longrightarrow> session_inv (fst (foldr laser_step ls s))"
  by (induction ls) (simp_all add: inv_laser_step)

lemma inv_bombs: "session_inv (fst s) \<Longrightarrow> session_inv (fst (foldr bomb_step bs s))"
  by (induction bs) (simp_all add: inv_bomb_step)

lemma inv_duelLasers: "session_inv g \<Longrightarrow> session_inv (g\<lparr>duelLasers := ls\<rparr>)"
  by (simp add: session_inv_def)

lemma inv_duelBombs: "session_inv g \<Longrightarrow> session_inv (g\<lparr>duelBombs := bs\<rparr>)"
  by (simp add: session_inv_def)

lemma inv_update_lasers: "session_inv g \<Longrightarrow> session_inv (update_lasers g)"
  by (simp add: update_lasers_def Let_def inv_duelLasers inv_lasers)

lemma inv_update_bombs: "session_inv g \<Longrightarrow> session_inv (update_bombs g)"
  by (simp add: update_bombs_def Let_def inv_duelBombs inv_bombs)

lemma inv_duel_weapons: "session_inv g \<Longrightarrow> session_inv (duel_weapons g)"
  by (simp add: duel_weapons_def Let_def inv_update_bombs inv_update_lasers inv_fire_bomb
        inv_fire_laser)

lemma inv_alive_count_update: "session_inv g \<Longrightarrow> session_inv (alive_count_update n g)"
  by (simp add: session_inv_def alive_count_update_def)

lemma inv_frameCount: "session_inv g \<Longrightarrow> session_inv (g\<lparr>frameCount := n\<rparr>)"
  by (simp add: session_inv_def)

lemma inv_fixed_step:
  assumes "session_inv g" "env_ok env"
  shows "session_inv (fixed_step over env g)"
proof (cases "over \<or> duelTransition g")
  case True
  then show ?thesis using assms(1) by (auto simp: fixed_step_def Let_def session_inv_def)
next
  case False
  let ?g3 = "survival_spawn env (engine_update env (g\<lparr>frameCount := frameCount g + 1\<rparr>))"
  have "session_inv ?g3"
    using assms by (simp add: inv_survival_spawn inv_engine_update inv_frameCount)
  then have "session_inv (safe_zone_drift env (safe_zone_shrink (player_tick ?g3)))"
    by (simp add: inv_safe_zone_drift inv_safe_zone_shrink inv_player_tick)
  then show ?thesis using False
    by (simp add: fixed_step_def Let_def inv_alive_count_update inv_duel_weapons inv_bot_loop)
qed

lemma inv_fixed_steps:
  "session_inv g \<Longrightarrow> list_all env_ok envs \<Longrightarrow>
     session_inv (foldl (\<lambda>h env. fixed_step over env h) g envs)"
  by (induction envs arbitrary: g) (simp_all add: inv_fixed_step)

lemma inv_animation_frame:
  "session_inv g \<Longrightarrow> list_all env_ok envs \<Longrightarrow> session_inv (animation_frame envs g)"
  by (simp add: animation_frame_def Let_def inv_fixed_steps)

lemma bot_ok_arena:
  assumes "init_ok ie"
  shows "bot_ok (arena_bot n ie i)"
proof -
  have "is_random (rnd_bot_rpm ie i)" using assms by (simp add: init_ok_def)
  then show ?thesis by (simp add: is_random_def arena_bot_def bot_ok_def Let_def)
qed

lemma all_bots_ok_init:
  assumes "init_ok ie"
  shows "all_bots_ok ((if mode = Arena then map (arena_bot n ie) [0..<n] else [])
                      @ (if mode = Duel then [boss_bot] else []))"
proof -
  have "bot_ok boss_bot" by (simp add: boss_bot_def bot_ok_def)
  then show ?thesis using assms by (auto simp: all_bots_ok_def bot_ok_arena)
qed

lemma inv_initGame: "init_ok ie \<Longrightarrow> session_inv (initGame mode n ie)"
  by (simp add: initGame_def session_inv_def all_bots_ok_init)

lemma reachable_inv: "reachable g \<Longrightarrow> session_inv g"
  by (induction rule: reachable.induct)
     (simp_all add: inv_initGame inv_onKeyDown inv_onKeyUp inv_animation_frame)

subsection \<open>Spin keys\<close>

lemma toLowerCase_j: "toLowerCase ''j'' = ''j''" "toLowerCase ''k'' = ''k''"
  by (simp_all add: toLowerCase_def lower_char_def)

lemma spin_gain_bounds: "0 < spin_gain g \<and> spin_gain g \<le> 3"
  by (simp add: spin_gain_def Let_def)

lemma spin_gain_cong:
  "player h = player g \<Longrightarrow> safeZone h = safeZone g \<Longrightarrow> safeZoneCX h = safeZoneCX g \<Longrightarrow>
   safeZoneCY h = safeZoneCY g \<Longrightarrow> spin_gain h = spin_gain g"
  by (simp add: spin_gain_def distToSafeZone_def)

lemma onKeyDown_spin:
  assumes "playerAlive g" "\<not> duelTransition g" "k = ''j'' \<or> k = ''k''"
  shows "onKeyDown k g =
     (if lastSpinKey g = k then g
      else g\<lparr>currentRPM := min 100 (currentRPM g + spin_gain g), lastSpinKey := k\<rparr>)"
proof -
  consider "k = ''j''" | "k = ''k''" using assms(3) by blast
  then show ?thesis
  proof cases
    case 1
    then show ?thesis using assms(1,2) by (simp add: onKeyDown_def Let_def toLowerCase_j)
  next
    case 2
    then show ?thesis using assms(1,2) by (simp add: onKeyDown_def Let_def toLowerCase_j)
  qed
qed

lemma arena_start_facts:
  "playerAlive arena_start" "\<not> duelTransition arena_start" "lastSpinKey arena_start = []"
  "currentRPM arena_start = 50" "spin_gain arena_start = 3"
  by (simp_all add: arena_start_def initGame_def spin_gain_def distToSafeZone_def)

lemma duel_start_facts:
  "playerAlive duel_start" "\<not> duelTransition duel_start" "lastSpinKey duel_start = []"
  "currentRPM duel_start = 50" "spin_gain duel_start = 3"
  by (simp_all add: duel_start_def initGame_def spin_gain_def distToSafeZone_def)

subsection \<open>The safe zone through a fixed step\<close>

lemma zone_drain: "zone_view (drain g r) = zone_view g"
  by (simp add: zone_view_def drain_def Let_def split: option.splits)

lemma zone_collide: "zone_view (collide g p) = zone_view g"
  by (simp add: collide_def zone_drain split: option.splits)

lemma zone_collisionStart: "zone_view (collisionStart ps g) = zone_view g"
  unfolding collisionStart_def
  by (induction ps arbitrary: g) (simp_all add: zone_collide)

lemma zone_set_bodies: "zone_view (set_bodies p bs g) = zone_view g"
  by (simp add: zone_view_def set_bodies_def)

lemma zone_engine_update: "zone_view (engine_update env g) = zone_view g"
  by (simp add: engine_update_def zone_set_bodies zone_collisionStart)

lemma zone_survival_spawn: "zone_view (survival_spawn env g) = zone_view g"
  by (simp add: zone_view_def survival_spawn_def Let_def)

lemma zone_player_tick: "zone_view (player_tick g) = zone_view g"
  by (simp add: zone_view_def player_tick_def Let_def)

lemma zone_safe_zone_drift: "zone_view (safe_zone_drift env g) = zone_view g"
  by (simp add: zone_view_def safe_zone_drift_def Let_def)

lemma zone_safe_zone_shrink:
  "safeZone (safe_zone_shrink g) \<le> safeZone g \<and>
   duelRound (safe_zone_shrink g) = duelRound g \<and> gameMode (safe_zone_shrink g) = gameMode g"
  by (simp add: safe_zone_shrink_def shrinkRate_def)

lemma zone_laser_step: "zone_view (fst (laser_step l s)) = zone_view (fst s)"
  by (simp add: zone_view_def laser_step_def Let_def)

lemma zone_bomb_step: "zone_view (fst (bomb_step b s)) = zone_view (fst s)"
  by (simp add: zone_view_def bomb_step_def Let_def)

lemma zone_lasers: "zone_view (fst (foldr laser_step ls s)) = zone_view (fst s)"
  by (induction ls) (simp_all add: zone_laser_step)

lemma zone_bombs: "zone_view (fst (foldr bomb_step bs s)) = zone_view (fst s)"
  by (induction bs) (simp_all add: zone_bomb_step)

lemma zone_update_lasers: "zone_view (update_lasers g) = zone_view g"
proof -
  have "zone_view (h\<lparr>duelLasers := ls\<rparr>) = zone_view h" for h ls by (simp add: zone_view_def)
  then show ?thesis by (simp add: update_lasers_def Let_def zone_lasers)
qed

lemma zone_update_bombs: "zone_view (update_bombs g) = zone_view g"
proof -
  have "zone_view (h\<lparr>duelBombs := bs\<rparr>) = zone_view h" for h bs by (simp add: zone_view_def)
  then show ?thesis by (simp add: update_bombs_def Let_def zone_bombs)
qed

lemma zone_fire_laser: "zone_view (fire_laser g) = zone_view g"
  by (simp add: zone_view_def fire_laser_def Let_def)

lemma zone_fire_bomb: "zone_view (fire_bomb g) = zone_view g"
  by (simp add: zone_view_def fire_bomb_def Let_def)

lemma zone_duel_weapons: "zone_view (duel_weapons g) = zone_view g"
  by (simp add: duel_weapons_def Let_def zone_update_bombs zone_update_lasers zone_fire_bomb
        zone_fire_laser)

lemma zone_alive_count_update: "zone_view (alive_count_update n g) = zone_view g"
  by (simp add: zone_view_def alive_count_update_def)

lemma zone_bot_rpm: "zone_view (bot_rpm env i d g) = zone_view g"
  by (simp add: zone_view_def bot_rpm_def Let_def)

lemma zone_eliminate:
  "zone_view (eliminate i g) =
     (if gameMode g = Duel \<and> duelRound g < 3 then (SAFE_ZONE_INITIAL, duelRound g + 1, Duel)
      else zone_view g)"
  by (simp add: zone_view_def eliminate_def Let_def)

text \<open>Either nothing the claim reads has changed, or a duel round has been reset.\<close>

lemma zone_bot_step:
  "zone_view (fst (bot_step env s i)) = zone_view (fst s) \<or>
   (gameMode (fst s) = Duel \<and> duelRound (fst s) < 3 \<and>
    zone_view (fst (bot_step env s i)) = (SAFE_ZONE_INITIAL, duelRound (fst s) + 1, Duel))"
  by (simp add: bot_step_def Let_def zone_bot_rpm zone_eliminate)

lemma zone_bot_steps:
  "zone_view (fst (foldl (bot_step env) s js)) = zone_view (fst s) \<or>
   (gameMode (fst s) = Duel \<and> duelRound (fst s) < 3 \<and>
    gameMode (fst (foldl (bot_step env) s js)) = Duel \<and>
    duelRound (fst s) < duelRound (fst (foldl (bot_step env) s js)) \<and>
    safeZone (fst (foldl (bot_step env) s js)) = SAFE_ZONE_INITIAL)"
proof (induction js arbitrary: s)
  case Nil
  then show ?case by simp
next
  case (Cons j js)
  let ?t = "bot_step env s j"
  let ?u = "foldl (bot_step env) ?t js"
  have step: "zone_view (fst ?t) = zone_view (fst s) \<or>
     (gameMode (fst s) = Duel \<and> duelRound (fst s) < 3 \<and>
      zone_view (fst ?t) = (SAFE_ZONE_INITIAL, duelRound (fst s) + 1, Duel))"
    by (rule zone_bot_step)
  have rest: "zone_view (fst ?u) = zone_view (fst ?t) \<or>
     (gameMode (fst ?t) = Duel \<and> duelRound (fst ?t) < 3 \<and> gameMode (fst ?u) = Duel \<and>
      duelRound (fst ?t) < duelRound (fst ?u) \<and> safeZone (fst ?u) = SAFE_ZONE_INITIAL)"
    by (rule Cons.IH)
  from step rest have
    "zone_view (fst ?u) = zone_view (fst s) \<or>
     (gameMode (fst s) = Duel \<and> duelRound (fst s) < 3 \<and> gameMode (fst ?u) = Duel \<and>
      duelRound (fst s) < duelRound (fst ?u) \<and> safeZone (fst ?u) = SAFE_ZONE_INITIAL)"
    by (auto simp: zone_view_def)
  then show ?case by simp
qed

lemma zone_bot_loop:
  "zone_view (fst (bot_loop env g)) = zone_view g \<or>
   (gameMode g = Duel \<and> duelRound g < 3 \<and> gameMode (fst (bot_loop env g)) = Duel \<and>
    duelRound g < duelRound (fst (bot_loop env g)) \<and>
    safeZone (fst (bot_loop env g)) = SAFE_ZONE_INITIAL)"
  using zone_bot_steps [of env "(g, 0)" "[0..<length (bots g)]"]
  by (simp add: bot_loop_def)

lemma zone_fixed_step:
  "safeZone (fixed_step over env g) \<le> safeZone g \<or>
   (gameMode g = Duel \<and> duelRound g < 3 \<and> duelRound g < duelRound (fixed_step over env g) \<and>
    safeZone (fixed_step over env g) = SAFE_ZONE_INITIAL)"
proof (cases "over \<or> duelTransition g")
  case True
  then show ?thesis by (auto simp: fixed_step_def Let_def)
next
  case False
  let ?g3 = "survival_spawn env (engine_update env (g\<lparr>frameCount := frameCount g + 1\<rparr>))"
  let ?g4 = "player_tick ?g3"
  let ?g5 = "safe_zone_drift env (safe_zone_shrink ?g4)"
  let ?g6 = "fst (bot_loop env ?g5)"
  have v4: "zone_view ?g4 = zone_view g"
    by (simp add: zone_player_tick zone_survival_spawn zone_engine_update) (simp add: zone_view_def)
  have v5: "safeZone ?g5 \<le> safeZone g \<and> duelRound ?g5 = duelRound g \<and> gameMode ?g5 = gameMode g"
  proof -
    have "zone_view ?g5 = zone_view (safe_zone_shrink ?g4)" by (rule zone_safe_zone_drift)
    then show ?thesis using zone_safe_zone_shrink [of ?g4] v4 by (simp add: zone_view_def)
  qed
  have v6: "zone_view ?g6 = zone_view ?g5 \<or>
     (gameMode ?g5 = Duel \<and> duelRound ?g5 < 3 \<and> gameMode ?g6 = Duel \<and>
      duelRound ?g5 < duelRound ?g6 \<and> safeZone ?g6 = SAFE_ZONE_INITIAL)"
    by (rule zone_bot_loop)
  have e: "fixed_step over env g = alive_count_update (snd (bot_loop env ?g5)) (duel_weapons ?g6)"
    using False by (simp add: fixed_step_def Let_def)
  have v8: "zone_view (fixed_step over env g) = zone_view ?g6"
    by (simp add: e zone_alive_count_update zone_duel_weapons)
  show ?thesis using v5 v6 v8 by (auto simp: zone_view_def)
qed

subsection \<open>Duel rounds\<close>

lemma frozen_step:
  assumes "duelTransition g"
  shows "fixed_step False env g =
           g\<lparr>duelTransitionTimer := duelTransitionTimer g - 1,
             duelTransition := (1 < duelTransitionTimer g)\<rparr>"
  using assms by (simp add: fixed_step_def Let_def)

lemma frozen_steps:
  "duelTransition g \<Longrightarrow> duelTransitionTimer g = int (length envs) \<Longrightarrow> envs \<noteq> [] \<Longrightarrow>
     foldl (\<lambda>h env. fixed_step False env h) g envs
       = g\<lparr>duelTransitionTimer := 0, duelTransition := False\<rparr>"
proof (induction envs arbitrary: g)
  case Nil
  then show ?case by simp
next
  case (Cons e es)
  let ?h = "fixed_step False e g"
  have h: "?h = g\<lparr>duelTransitionTimer := int (length es), duelTransition := (es \<noteq> [])\<rparr>"
    using Cons.prems by (simp add: frozen_step)
  show ?case
  proof (cases "es = []")
    case True
    then show ?thesis using h by simp
  next
    case False
    have "foldl (\<lambda>h env. fixed_step False env h) ?h es
            = ?h\<lparr>duelTransitionTimer := 0, duelTransition := False\<rparr>"
      using False h by (intro Cons.IH) simp_all
    then show ?thesis using h by simp
  qed
qed

lemma eliminate_reset:
  assumes "gameMode g = Duel" and "duelRound g < 3" and "i < length (bots g)"
  shows "eliminate i g =
     g\<lparr>bots := (bots g)[i := (bots g ! i)
          \<lparr>alive := True, rpm := BOSS_RPM + real_of_int (duelRound g + 1) * 15,
           body := \<lparr>position = (CX + 200, CY), velocity = (0, 0)\<rparr>\<rparr>],
       kills := kills g + 1,
       duelRound := duelRound g + 1,
       duelTransition := True,
       duelTransitionTimer := DUEL_ROUND_TRANSITION_FRAMES,
       duelBossMaxRPM := BOSS_RPM + real_of_int (duelRound g + 1) * 15,
       player := \<lparr>position = (CX - 200, CY), velocity = (0, 0)\<rparr>,
       currentRPM := STARTING_RPM,
       safeZone := SAFE_ZONE_INITIAL,
       safeZoneCX := CX,
       safeZoneCY := CY,
       duelLasers := [],
       duelBombs := []\<rparr>"
  using assms by (simp add: eliminate_def Let_def)

lemma eliminate_final:
  assumes "gameMode g = Duel" and "\<not> duelRound g < 3"
  shows "eliminate i g =
     g\<lparr>bots := (bots g)[i := (bots g ! i)\<lparr>alive := False\<rparr>],
       kills := kills g + 1,
       gameOver := True, gs_phase := GameOver, gs_isWinner := True\<rparr>"
  using assms by (simp add: eliminate_def Let_def)

subsection \<open>Collisions\<close>

lemma bots_arena_start:
  "bots arena_start = [\<lparr>body = \<lparr>position = (780, 400), velocity = (0, 0)\<rparr>, rpm = 60,
      alive = True, lastHitFrame = - 999, chainHits = 0\<rparr>]"
  by (simp add: arena_start_def initGame_def arena_bot_def ie1_def)

lemma roles_arena_start:
  "assign_roles arena_start (BotB 0, PlayerB) =
     Some \<lparr>attacker = PlayerB, defender = BotB 0, attackerRPM = 50, defenderRPM = 60\<rparr>"
  by (simp add: assign_roles_def is_wall_def find_alive_def bots_arena_start arena_start_facts)

lemma bot_pair_attacker_not_weaker:
  assumes "find_alive g (BotB i) = Some i" and "find_alive g (BotB j) = Some j"
    and "assign_roles g (BotB i, BotB j) = Some r"
  shows "attackerRPM r \<ge> defenderRPM r \<and>
         ((attacker r = BotB i \<and> defender r = BotB j \<and> attackerRPM r = rpm (bots g ! i)
             \<and> defenderRPM r = rpm (bots g ! j)) \<or>
          (attacker r = BotB j \<and> defender r = BotB i \<and> attackerRPM r = rpm (bots g ! j)
             \<and> defenderRPM r = rpm (bots g ! i) \<and> rpm (bots g ! i) < rpm (bots g ! j)))"
  using assms by (auto simp: assign_roles_def is_wall_def Let_def split: if_splits)

lemma or1_sqrt_nonzero: "or1 (sqrt (dx * dx + dy * dy)) \<noteq> 0"
  by (simp add: or1_def)

lemma or1_unit:
  assumes "dx \<noteq> 0 \<or> dy \<noteq> 0"
  shows "(dx / or1 (sqrt (dx * dx + dy * dy)))\<^sup>2 + (dy / or1 (sqrt (dx * dx + dy * dy)))\<^sup>2 = 1"
proof -
  let ?s = "dx * dx + dy * dy"
  have pos: "0 < ?s" using assms
    by (metis add_pos_nonneg add_nonneg_pos zero_le_square not_sum_squares_lt_zero
          less_eq_real_def mult_eq_0_iff add_cancel_right_right add_cancel_left_left)
  then have "0 < sqrt ?s" by (rule real_sqrt_gt_zero)
  then have d: "or1 (sqrt ?s) = sqrt ?s" using assms by (auto simp: or1_def)
  have "(dx / sqrt ?s)\<^sup>2 + (dy / sqrt ?s)\<^sup>2 = (dx\<^sup>2 + dy\<^sup>2) / (sqrt ?s)\<^sup>2"
    by (simp add: power_divide add_divide_distrib)
  also have "\<dots> = ?s / ?s" using pos by (simp add: power2_eq_square)
  also have "\<dots> = 1" using assms by auto
  finally show ?thesis by (simp add: d)
qed

lemma drain_bot:
  assumes "defender r = BotB i" and "i < length (bots g)"
  shows "bots (drain g r) ! i = (bots g ! i)
           \<lparr>rpm := max 0 (rpm (bots g ! i) - chainDrain g r (bots g ! i)),
            lastHitFrame := frameCount g,
            chainHits := next_chainHits g (bots g ! i)\<rparr>"
  using assms by (simp add: drain_def find_bot_def Let_def)

lemma chainDrain_formula:
  "chainDrain g r b = 5 + (real_of_int (next_chainHits g b) - 1) * 5
     + (if gameMode g = Duel \<and> attacker r = PlayerB
        then 3 * sqrt ((fst (velocity (player g)))\<^sup>2 + (snd (velocity (player g)))\<^sup>2)
        else 0)"
  by (simp add: chainDrain_def Let_def body_of_def)

subsection \<open>Facts about the sample inputs\<close>

lemma init_ok_ie1: "init_ok ie1"
  by (simp add: init_ok_def ie1_def is_random_def)

lemma env_ok_still: "env_ok still_env"
  by (simp add: env_ok_def still_env_def is_random_def)

lemma reachable_duel_start: "reachable duel_start"
  unfolding duel_start_def using init_ok_ie1 by (rule reachable.start)

lemma bots_duel_start: "bots duel_start = [boss_bot]"
  by (simp add: duel_start_def initGame_def)

lemma duel_start_mode:
  "gameMode duel_start = Duel" "duelRound duel_start = 1" "safeZone duel_start = 360"
  "duelBossMaxRPM duel_start = 40" "keys duel_start = {}" "frameCount duel_start = 0"
  by (simp_all add: duel_start_def initGame_def)

lemma duel_rush_facts:
  "gameMode duel_rush = Duel" "bots duel_rush = [boss_bot]" "currentRPM duel_rush = 50"
  "frameCount duel_rush = 0" "velocity (player duel_rush) = (3, 4)"
  by (simp_all add: duel_rush_def duel_start_def initGame_def)

lemma roles_duel_rush:
  "assign_roles duel_rush (PlayerB, BotB 0) =
     Some \<lparr>attacker = PlayerB, defender = BotB 0, attackerRPM = 50, defenderRPM = 40\<rparr>"
  by (simp add: assign_roles_def is_wall_def find_alive_def duel_rush_facts boss_bot_def)

lemma wobble_clash_facts:
  "bots wobble_clash =
     [\<lparr>body = \<lparr>position = (CX, CY), velocity = (0, 0)\<rparr>, rpm = 70, alive = True,
       lastHitFrame = - 999, chainHits = 0\<rparr>,
      \<lparr>body = \<lparr>position = (CX + 40, CY), velocity = (0, 0)\<rparr>, rpm = 30, alive = True,
       lastHitFrame = - 999, chainHits = 0\<rparr>]"
  "gameMode wobble_clash = Arena"
  by (simp_all add: wobble_clash_def arena_start_def initGame_def)

lemma roles_wobble_clash:
  "assign_roles wobble_clash (BotB 0, BotB (Suc 0)) =
     Some \<lparr>attacker = BotB 0, defender = BotB (Suc 0), attackerRPM = 70, defenderRPM = 30\<rparr>"
  by (simp add: assign_roles_def is_wall_def find_alive_def wobble_clash_facts)

lemma normal_wobble_clash:
  "collision_normal (body_of wobble_clash (BotB 0)) (body_of wobble_clash (BotB (Suc 0))) = (1, 0)"
  by (simp add: collision_normal_def collision_dist_def body_of_def wobble_clash_facts or1_def)

lemma forces_wobble_clash:
  "force_overspin wobble_clash
     \<lparr>attacker = BotB 0, defender = BotB (Suc 0), attackerRPM = 70, defenderRPM = 30\<rparr> = 113.7536"
  "force_final wobble_clash
     \<lparr>attacker = BotB 0, defender = BotB (Suc 0), attackerRPM = 70, defenderRPM = 30\<rparr> = 170.6304"
  by (simp_all add: force_final_def force_overspin_def force_boss_def force_base_def
        isDuelBoss_def relSpeed_def normal_wobble_clash wobble_clash_facts body_of_def)

lemma onKeyDown_locked: "duelTransition g \<Longrightarrow> onKeyDown key g = g"
  by (simp add: onKeyDown_def Let_def)

subsection \<open>A fixed step that eliminates the boss\<close>

lemma hit1: "engine_update hit_env (duel_start\<lparr>frameCount := 1\<rparr>) =
   duel_start\<lparr>frameCount := 1,
     bots := [\<lparr>body = \<lparr>position = (CX + 40, CY), velocity = (0, 0)\<rparr>, rpm = 0, alive = True,
               lastHitFrame = 1, chainHits = 4\<rparr>]\<rparr>"
  by (simp add: engine_update_def set_bodies_def collisionStart_def hit_env_def bots_duel_start
        boss_bot_def collide_def assign_roles_def is_wall_def find_alive_def drain_def
        find_bot_def Let_def chainDrain_def next_chainHits_def body_of_def duel_start_mode
        duel_start_facts)
     (simp add: duel_start_def initGame_def)


lemma hit2: "player_tick (duel_start\<lparr>frameCount := 1,
     bots := [\<lparr>body = \<lparr>position = (CX + 40, CY), velocity = (0, 0)\<rparr>, rpm = 0, alive = True,
               lastHitFrame = 1, chainHits = 4\<rparr>]\<rparr>) =
   duel_start\<lparr>frameCount := 1,
     bots := [\<lparr>body = \<lparr>position = (CX + 40, CY), velocity = (0, 0)\<rparr>, rpm = 0, alive = True,
               lastHitFrame = 1, chainHits = 4\<rparr>],
     currentRPM := 49.6\<rparr>"
  by (simp add: player_tick_def Let_def distToSafeZone_def dist2Center_def duel_start_facts)
     (simp add: duel_start_def initGame_def)

lemma hit3: "safe_zone_drift hit_env (safe_zone_shrink (duel_start\<lparr>frameCount := 1,
     bots := [\<lparr>body = \<lparr>position = (CX + 40, CY), velocity = (0, 0)\<rparr>, rpm = 0, alive = True,
               lastHitFrame = 1, chainHits = 4\<rparr>],
     currentRPM := 49.6\<rparr>)) =
   duel_start\<lparr>frameCount := 1,
     bots := [\<lparr>body = \<lparr>position = (CX + 40, CY), velocity = (0, 0)\<rparr>, rpm = 0, alive = True,
               lastHitFrame = 1, chainHits = 4\<rparr>],
     currentRPM := 49.6, szTargetX := 575, szTargetY := 400\<rparr>"
  by (simp add: safe_zone_drift_def safe_zone_shrink_def Let_def hit_env_def)
     (simp add: duel_start_def initGame_def ie1_def)

lemma hit4: "bot_loop hit_env (duel_start\<lparr>frameCount := 1,
     bots := [\<lparr>body = \<lparr>position = (CX + 40, CY), velocity = (0, 0)\<rparr>, rpm = 0, alive = True,
               lastHitFrame = 1, chainHits = 4\<rparr>],
     currentRPM := 49.6, szTargetX := 575, szTargetY := 400\<rparr>) =
   (duel_start\<lparr>frameCount := 1,
     bots := [\<lparr>body = \<lparr>position = (CX + 200, CY), velocity = (0, 0)\<rparr>, rpm = 70, alive = True,
               lastHitFrame = 1, chainHits = 4\<rparr>],
     currentRPM := 50, szTargetX := 575, szTargetY := 400,
     kills := 1, duelRound := 2, duelTransition := True, duelTransitionTimer := 180,
     duelBossMaxRPM := 70,
     player := \<lparr>position = (CX - 200, CY), velocity = (0, 0)\<rparr>\<rparr>, 0)"
  by (simp add: bot_loop_def bot_step_def eliminate_def Let_def duel_start_mode)
     (simp add: duel_start_def initGame_def)

lemma boss_eliminated_in_a_step:
  "fixed_step False hit_env duel_start =
   duel_start\<lparr>frameCount := 1,
     bots := [\<lparr>body = \<lparr>position = (CX + 200, CY), velocity = (0, 0)\<rparr>, rpm = 70, alive = True,
               lastHitFrame = 1, chainHits = 4\<rparr>],
     currentRPM := 50, szTargetX := 575, szTargetY := 400,
     kills := 1, duelRound := 2, duelTransition := True, duelTransitionTimer := 180,
     duelBossMaxRPM := 70,
     player := \<lparr>position = (CX - 200, CY), velocity = (0, 0)\<rparr>\<rparr>"
  (is "_ = ?s4")
proof -
  let ?s1 = "duel_start\<lparr>frameCount := 1,
     bots := [\<lparr>body = \<lparr>position = (CX + 40, CY), velocity = (0, 0)\<rparr>, rpm = 0, alive = True,
               lastHitFrame = 1, chainHits = 4\<rparr>]\<rparr>"
  have f: "duel_start\<lparr>frameCount := frameCount duel_start + 1\<rparr> = duel_start\<lparr>frameCount := 1\<rparr>"
    by (simp add: duel_start_mode)
  have e2: "survival_spawn hit_env ?s1 = ?s1"
    by (simp add: survival_spawn_def duel_start_mode)
  have w: "duel_weapons h = h"
    if "gameMode h = Duel" "duelLasers h = []" "duelBombs h = []"
       "frameCount h - lastLaserFrame h < 12" "frameCount h - lastBombFrame h < 12" for h
    using that
    by (simp add: duel_weapons_def fire_laser_def fire_bomb_def update_lasers_def
          update_bombs_def Let_def)
  have e6: "duel_weapons ?s4 = ?s4"
    by (rule w) (simp_all add: duel_start_def initGame_def)
  have e7: "alive_count_update 0 ?s4 = ?s4"
    by (simp add: alive_count_update_def duel_start_mode)
  have "fixed_step False hit_env duel_start =
          alive_count_update
            (snd (bot_loop hit_env (safe_zone_drift hit_env (safe_zone_shrink (player_tick
               (survival_spawn hit_env (engine_update hit_env
                  (duel_start\<lparr>frameCount := frameCount duel_start + 1\<rparr>))))))))
            (duel_weapons
              (fst (bot_loop hit_env (safe_zone_drift hit_env (safe_zone_shrink (player_tick
               (survival_spawn hit_env (engine_update hit_env
                  (duel_start\<lparr>frameCount := frameCount duel_start + 1\<rparr>)))))))))"
    by (simp only: fixed_step_def Let_def duel_start_facts if_False)
  also have "\<dots> = ?s4"
    by (simp only: f hit1 e2 hit2 hit3 hit4 fst_conv snd_conv e6 e7)
  finally show ?thesis .
qed

lemma env_ok_hit: "env_ok hit_env"
  by (simp add: env_ok_def hit_env_def is_random_def)

lemma reachable_hit: "reachable (animation_frame [hit_env] duel_start)"
  using reachable_duel_start by (rule reachable.frame) (simp add: env_ok_hit)

lemma frame_hit: "animation_frame [hit_env] duel_start = fixed_step False hit_env duel_start"
  by (simp add: animation_frame_def Let_def duel_start_def initGame_def)

lemma eliminate_boss_down:
  "eliminate 0 boss_down = fixed_step False hit_env duel_start"
  unfolding boss_eliminated_in_a_step
  by (simp add: eliminate_def Let_def boss_down_def duel_start_mode)
     (simp add: duel_start_def initGame_def)

lemma boss_down_facts:
  "session_inv boss_down" "gameMode boss_down = Duel" "0 < length (bots boss_down)"
  "duelRound boss_down = 1" "alive (bots boss_down ! 0)" "rpm (bots boss_down ! 0) = 0"
  "duelBossMaxRPM boss_down = 40" "currentRPM boss_down = 49.6"
  by (simp_all add: boss_down_def session_inv_def all_bots_ok_def bot_ok_def duel_start_mode
        duel_start_facts)

lemma bot_step_eliminates:
  assumes "alive (bots g ! i)"
    and "rpm (bots g ! i) \<le> 0 \<or> ARENA_R + 50 < dist2Center (body (bots g ! i))"
  shows "bot_step env (g, n) i = (eliminate i g, n)"
  using assms by (simp add: bot_step_def Let_def)

lemma hit_frame_facts:
  "duelTransition (animation_frame [hit_env] duel_start)"
  "keys (animation_frame [hit_env] duel_start) = {}"
  "currentRPM (animation_frame [hit_env] duel_start) = 50"
  "lastSpinKey (animation_frame [hit_env] duel_start) = []"
  "duelTransitionTimer (animation_frame [hit_env] duel_start) = 180"
  "duelRound (animation_frame [hit_env] duel_start) = 2"
  "gameMode (animation_frame [hit_env] duel_start) = Duel"
  "safeZone (animation_frame [hit_env] duel_start) = 360"
  unfolding frame_hit boss_eliminated_in_a_step
  by (simp_all add: duel_start_mode duel_start_facts)

subsection \<open>Start and reset values of a bot\<close>

lemma spawn_rpm_below_70:
  assumes "env_ok env" and "gameMode g = Survival" and "frameCount g \<ge> nextBotSpawnFrame g"
    and "playerAlive g"
  shows "55 \<le> rpm (last (bots (survival_spawn env g))) \<and>
         rpm (last (bots (survival_spawn env g))) < 70"
proof -
  have "is_random (rnd_spawn_rpm env)" using assms(1) by (simp add: env_ok_def)
  then show ?thesis using assms(2-4)
    by (simp add: survival_spawn_def Let_def is_random_def)
qed

lemma start_rpm_below_70:
  assumes "init_ok ie" and "b \<in> set (bots (initGame mode n ie))"
  shows "rpm b < 70"
proof -
  have "rpm (arena_bot n ie i) < 70" for i
  proof -
    have "is_random (rnd_bot_rpm ie i)" using assms(1) by (simp add: init_ok_def)
    then show ?thesis by (simp add: arena_bot_def Let_def is_random_def)
  qed
  moreover have "rpm boss_bot < 70" by (simp add: boss_bot_def)
  ultimately show ?thesis using assms(2)
    by (auto simp: initGame_def split: if_splits)
qed

lemma reset_rpm_at_most_85:
  assumes "gameMode g = Duel" and "duelRound g < 3" and "i < length (bots g)"
  shows "rpm (bots (eliminate i g) ! i) = BOSS_RPM + real_of_int (duelRound g + 1) * 15 \<and>
         rpm (bots (eliminate i g) ! i) \<le> 85"
  using assms by (simp add: eliminate_def Let_def)

section \<open>Claims\<close>

text \<open>
  C1 (attacker is the entity with the higher RPM). The handler compares the RPM of the
  two bodies only when both are bots. When one body is the player, the player is the
  attacker whatever the RPM: at the start of an arena match with one bot, the player
  (RPM 50) meets the bot (RPM 60), the handler names the player as attacker, hands the
  knockback to the bot and drains the bot from 60 to 55, while the player keeps 50.
\<close>

theorem C1_player_attacks_stronger_bot:
  "currentRPM arena_start = 50 \<and> rpm (bots arena_start ! 0) = 60 \<and>
   assign_roles arena_start (BotB 0, PlayerB) =
     Some \<lparr>attacker = PlayerB, defender = BotB 0, attackerRPM = 50, defenderRPM = 60\<rparr> \<and>
   map fst (collide_forces arena_start (BotB 0, PlayerB)) = [BotB 0] \<and>
   rpm (bots (collide arena_start (BotB 0, PlayerB)) ! 0) = 55 \<and>
   currentRPM (collide arena_start (BotB 0, PlayerB)) = 50"
  by (simp add: roles_arena_start collide_forces_def collide_def knockback_def self_recoil_def
        Let_def drain_def find_bot_def chainDrain_def next_chainHits_def bots_arena_start
        arena_start_facts)
     (simp add: arena_start_def initGame_def)

text \<open>
  C2. In every reachable state of a session, hence after every key event and every
  fixed step, the spin energy of the player and of every bot lies in \<open>[0, 100]\<close>. The
  mutation sites (spin-key gain, per-tick decay, combat drain, projectile damage, bot
  regeneration and floor, spawn, duel round reset) are the steps of \<open>reachable\<close>; each
  of them preserves \<open>session_inv\<close>.
\<close>

theorem C2_rpm_within_0_100:
  assumes "reachable g"
  shows "0 \<le> currentRPM g \<and> currentRPM g \<le> 100 \<and>
         (\<forall>b \<in> set (bots g). 0 \<le> rpm b \<and> rpm b \<le> 100)"
proof -
  have inv: "session_inv g" using assms by (rule reachable_inv)
  then have "\<forall>b \<in> set (bots g). bot_ok b" by (simp add: session_inv_def all_bots_ok_def)
  then have "\<forall>b \<in> set (bots g). 0 \<le> rpm b \<and> rpm b \<le> 100"
    by (auto simp: bot_ok_def)
  then show ?thesis using inv by (simp add: session_inv_def)
qed

theorem C2_rpm_within_0_100_witness:
  "reachable (onKeyDown ''j'' arena_start) \<and>
   currentRPM (onKeyDown ''j'' arena_start) = 53 \<and>
   0 \<le> currentRPM (onKeyDown ''j'' arena_start) \<and>
   currentRPM (onKeyDown ''j'' arena_start) \<le> 100 \<and>
   bots (onKeyDown ''j'' arena_start) \<noteq> [] \<and>
   0 \<le> rpm (hd (bots (onKeyDown ''j'' arena_start))) \<and>
   rpm (hd (bots (onKeyDown ''j'' arena_start))) \<le> 100"
proof -
  have "init_ok ie1" by (simp add: init_ok_def ie1_def is_random_def)
  then have r: "reachable (onKeyDown ''j'' arena_start)"
    unfolding arena_start_def by (intro reachable.keydown reachable.start)
  have k: "onKeyDown ''j'' arena_start
             = arena_start\<lparr>currentRPM := 53, lastSpinKey := ''j''\<rparr>"
    by (simp add: onKeyDown_spin arena_start_facts)
  have n: "bots (onKeyDown ''j'' arena_start) \<noteq> []"
    by (simp add: k) (simp add: arena_start_def initGame_def)
  show ?thesis using r n C2_rpm_within_0_100 [OF r] by (simp add: k)
qed

text \<open>
  C3. From any reachable state, a fixed step leaves the radius of the safe zone at or
  below its value before the step, unless the step resets a duel round (mode duel,
  round below 3, the round counter grows), and then the radius is the initial one. The
  radius is never below \<open>SAFE_ZONE_MIN\<close>, the minimum of every mode. Key events do not
  touch the radius.
\<close>

theorem C3_safe_zone_monotone:
  assumes "reachable g" and "env_ok env"
  shows "SAFE_ZONE_MIN \<le> safeZone (fixed_step over env g) \<and>
         (safeZone (fixed_step over env g) \<le> safeZone g \<or>
          (gameMode g = Duel \<and> duelRound g < 3 \<and>
           duelRound g < duelRound (fixed_step over env g) \<and>
           safeZone (fixed_step over env g) = SAFE_ZONE_INITIAL)) \<and>
         safeZone (onKeyDown key g) = safeZone g \<and> safeZone (onKeyUp key g) = safeZone g"
proof -
  have "session_inv (fixed_step over env g)"
    using assms by (simp add: inv_fixed_step reachable_inv)
  then have "0 \<le> safeZone (fixed_step over env g)" by (simp add: session_inv_def)
  moreover have "safeZone (onKeyDown key g) = safeZone g"
    by (simp add: onKeyDown_def Let_def)
  moreover have "safeZone (onKeyUp key g) = safeZone g"
    by (simp add: onKeyUp_def)
  ultimately show ?thesis using zone_fixed_step [of over env g] by simp
qed

theorem C3_safe_zone_monotone_witness:
  "reachable duel_start \<and> env_ok still_env \<and> env_ok hit_env \<and>
   safeZone duel_start = 360 \<and>
   0 \<le> safeZone (fixed_step False still_env duel_start) \<and>
   safeZone (fixed_step False still_env duel_start) \<le> safeZone duel_start \<and>
   safeZone (onKeyDown ''j'' duel_start) = safeZone duel_start \<and>
   safeZone (onKeyUp ''j'' duel_start) = safeZone duel_start \<and>
   gameMode duel_start = Duel \<and> duelRound duel_start = 1 \<and>
   duelRound (fixed_step False hit_env duel_start) = 2 \<and>
   0 \<le> safeZone (fixed_step False hit_env duel_start) \<and>
   safeZone (fixed_step False hit_env duel_start) = 360"
proof -
  note a = C3_safe_zone_monotone [OF reachable_duel_start env_ok_still, of False "''j''"]
  note b = C3_safe_zone_monotone [OF reachable_duel_start env_ok_hit, of False "''j''"]
  have r: "duelRound (fixed_step False hit_env duel_start) = 2"
    "safeZone (fixed_step False hit_env duel_start) = 360"
    unfolding boss_eliminated_in_a_step by (simp_all add: duel_start_mode)
  have a1: "0 \<le> safeZone (fixed_step False still_env duel_start)"
    using a by (rule conjunct1)
  have a2: "safeZone (fixed_step False still_env duel_start) \<le> safeZone duel_start"
    using a [THEN conjunct2, THEN conjunct1] by (auto simp: duel_start_mode)
  have a3: "safeZone (onKeyDown ''j'' duel_start) = safeZone duel_start \<and>
            safeZone (onKeyUp ''j'' duel_start) = safeZone duel_start"
    using a [THEN conjunct2, THEN conjunct2] .
  have b1: "0 \<le> safeZone (fixed_step False hit_env duel_start)"
    using b by (rule conjunct1)
  show ?thesis
    using reachable_duel_start env_ok_still env_ok_hit a1 a2 a3 b1 r
    by (simp add: duel_start_mode)
qed

text \<open>
  C4. For a living player outside a round transition, a spin key equal to the last
  accepted spin key gains nothing, and a spin key that differs from it gains exactly
  once: \<open>min 100 (rpm + g)\<close>, where \<open>g\<close> is the gain per press, 3 inside the safe zone
  and \<open>3 * 0.15\<close> outside. With no tick and no collision in between, and the last
  accepted key not J, the presses J, K, J give \<open>min 100 (rpm + 3 * g)\<close> and the presses
  J, J give \<open>min 100 (rpm + g)\<close>; from the start of a match these are 59 and 53.
\<close>

theorem C4_spin_alternation:
  assumes "playerAlive g" and "\<not> duelTransition g" and "k = ''j'' \<or> k = ''k''"
  shows "(lastSpinKey g = k \<longrightarrow> currentRPM (onKeyDown k g) = currentRPM g) \<and>
         (lastSpinKey g \<noteq> k \<longrightarrow>
            currentRPM (onKeyDown k g) = min 100 (currentRPM g + spin_gain g) \<and>
            currentRPM (onKeyDown k (onKeyDown k g)) = min 100 (currentRPM g + spin_gain g)) \<and>
         (lastSpinKey g \<noteq> ''j'' \<longrightarrow>
            currentRPM (onKeyDown ''j'' (onKeyDown ''k'' (onKeyDown ''j'' g)))
              = min 100 (currentRPM g + 3 * spin_gain g) \<and>
            currentRPM (onKeyDown ''j'' (onKeyDown ''j'' g))
              = min 100 (currentRPM g + spin_gain g))"
proof -
  let ?a = "spin_gain g"
  have b: "0 < ?a" using spin_gain_bounds by simp
  define g1 where "g1 = g\<lparr>currentRPM := min 100 (currentRPM g + ?a), lastSpinKey := ''j''\<rparr>"
  define g2 where "g2 = g1\<lparr>currentRPM := min 100 (currentRPM g1 + ?a), lastSpinKey := ''k''\<rparr>"
  define g3 where "g3 = g2\<lparr>currentRPM := min 100 (currentRPM g2 + ?a), lastSpinKey := ''j''\<rparr>"
  have s1: "spin_gain g1 = ?a" by (rule spin_gain_cong) (simp_all add: g1_def)
  have s2: "spin_gain g2 = ?a" by (rule spin_gain_cong) (simp_all add: g2_def g1_def)
  have p1: "playerAlive g1 \<and> \<not> duelTransition g1" using assms by (simp add: g1_def)
  have p2: "playerAlive g2 \<and> \<not> duelTransition g2" using p1 by (simp add: g2_def)
  have same: "lastSpinKey g = k \<longrightarrow> currentRPM (onKeyDown k g) = currentRPM g"
    using assms by (simp add: onKeyDown_spin)
  have once: "lastSpinKey g \<noteq> k \<longrightarrow>
            currentRPM (onKeyDown k g) = min 100 (currentRPM g + spin_gain g) \<and>
            currentRPM (onKeyDown k (onKeyDown k g)) = min 100 (currentRPM g + spin_gain g)"
  proof
    assume n: "lastSpinKey g \<noteq> k"
    let ?h = "g\<lparr>currentRPM := min 100 (currentRPM g + ?a), lastSpinKey := k\<rparr>"
    have h: "onKeyDown k g = ?h" using assms n by (simp add: onKeyDown_spin)
    have "onKeyDown k ?h = ?h" using assms by (simp add: onKeyDown_spin)
    then show "currentRPM (onKeyDown k g) = min 100 (currentRPM g + spin_gain g) \<and>
            currentRPM (onKeyDown k (onKeyDown k g)) = min 100 (currentRPM g + spin_gain g)"
      using h by simp
  qed
  have seq: "lastSpinKey g \<noteq> ''j'' \<longrightarrow>
            currentRPM (onKeyDown ''j'' (onKeyDown ''k'' (onKeyDown ''j'' g)))
              = min 100 (currentRPM g + 3 * spin_gain g) \<and>
            currentRPM (onKeyDown ''j'' (onKeyDown ''j'' g))
              = min 100 (currentRPM g + spin_gain g)"
  proof
    assume n: "lastSpinKey g \<noteq> ''j''"
    have e1: "onKeyDown ''j'' g = g1" using assms(1,2) n by (simp add: onKeyDown_spin g1_def)
    have e2: "onKeyDown ''k'' g1 = g2" using p1 s1 by (simp add: onKeyDown_spin g2_def) (simp add: g1_def)
    have e3: "onKeyDown ''j'' g2 = g3" using p2 s2 by (simp add: onKeyDown_spin g3_def) (simp add: g2_def)
    have e4: "onKeyDown ''j'' g1 = g1" using p1 by (simp add: onKeyDown_spin) (simp add: g1_def)
    have "currentRPM g3 = min 100 (currentRPM g + 3 * ?a)"
      using b by (simp add: g3_def g2_def g1_def min_def)
    moreover have "currentRPM g1 = min 100 (currentRPM g + ?a)" by (simp add: g1_def)
    ultimately show "currentRPM (onKeyDown ''j'' (onKeyDown ''k'' (onKeyDown ''j'' g)))
              = min 100 (currentRPM g + 3 * spin_gain g) \<and>
            currentRPM (onKeyDown ''j'' (onKeyDown ''j'' g))
              = min 100 (currentRPM g + spin_gain g)"
      by (simp add: e1 e2 e3 e4)
  qed
  show ?thesis using same once seq by (intro conjI)
qed

theorem C4_spin_alternation_witness:
  "playerAlive duel_start \<and> \<not> duelTransition duel_start \<and> lastSpinKey duel_start \<noteq> ''j'' \<and>
   currentRPM duel_start = 50 \<and>
   currentRPM (onKeyDown ''j'' (onKeyDown ''k'' (onKeyDown ''j'' duel_start))) = 59 \<and>
   currentRPM (onKeyDown ''j'' (onKeyDown ''j'' duel_start)) = 53"
  using C4_spin_alternation [of duel_start "''j''"] by (simp add: duel_start_facts)

text \<open>
  C5 as stated gives the drain as \<open>5 + (chainHits - 1) * 5\<close> for every hit on a bot. In
  a duel the player, moving at speed 5, hits the boss for the first time: \<open>chainHits\<close>
  becomes 1 and the drain is 20, not 5; the boss falls from 40 to 20.
\<close>

theorem C5_duel_momentum_counterexample:
  "assign_roles duel_rush (PlayerB, BotB 0) =
     Some \<lparr>attacker = PlayerB, defender = BotB 0, attackerRPM = 50, defenderRPM = 40\<rparr> \<and>
   chainHits (bots (collide duel_rush (PlayerB, BotB 0)) ! 0) = 1 \<and>
   chainDrain duel_rush \<lparr>attacker = PlayerB, defender = BotB 0, attackerRPM = 50,
                          defenderRPM = 40\<rparr> (bots duel_rush ! 0) = 20 \<and>
   chainDrain duel_rush \<lparr>attacker = PlayerB, defender = BotB 0, attackerRPM = 50,
                          defenderRPM = 40\<rparr> (bots duel_rush ! 0)
     \<noteq> 5 + (real_of_int (chainHits (bots (collide duel_rush (PlayerB, BotB 0)) ! 0)) - 1) * 5 \<and>
   rpm (bots duel_rush ! 0) = 40 \<and>
   rpm (bots (collide duel_rush (PlayerB, BotB 0)) ! 0) = 20"
  by (simp add: roles_duel_rush collide_def drain_def find_bot_def Let_def chainDrain_def
        next_chainHits_def body_of_def duel_rush_facts boss_bot_def)

text \<open>
  C5, as amended. A hit on a bot less than 120 frames after its previous hit raises
  \<open>chainHits\<close> by one, any other hit sets it to 1, and the hit is recorded as the last
  one. The drain is \<open>5 + (chainHits - 1) * 5\<close>, to which duel mode adds three times the
  speed of the player when the player is the attacker; the RPM of the bot drops by the
  drain, not below 0. Apart from that duel bonus, the next hit inside the window drains
  5 more than the one before; a hit 120 frames or more after the last one starts again
  at \<open>chainHits = 1\<close> and the base drain 5. The tick of a bot clears \<open>chainHits\<close> once more
  than 120 frames have passed since its last hit.
\<close>

theorem C5_chain_drain:
  assumes "defender r = BotB i" and "i < length (bots g)"
  shows "chainHits (bots (drain g r) ! i) =
           (if frameCount g - lastHitFrame (bots g ! i) < BOT_CHAIN_WINDOW
            then chainHits (bots g ! i) + 1 else 1) \<and>
         lastHitFrame (bots (drain g r) ! i) = frameCount g \<and>
         rpm (bots (drain g r) ! i) = max 0 (rpm (bots g ! i) - chainDrain g r (bots g ! i)) \<and>
         chainDrain g r (bots g ! i) =
           5 + (real_of_int (chainHits (bots (drain g r) ! i)) - 1) * 5
             + (if gameMode g = Duel \<and> attacker r = PlayerB
                then 3 * sqrt ((fst (velocity (player g)))\<^sup>2 + (snd (velocity (player g)))\<^sup>2)
                else 0) \<and>
         (\<not> (gameMode g = Duel \<and> attacker r = PlayerB) \<and>
          \<not> (gameMode h = Duel \<and> attacker r' = PlayerB) \<and>
          chainHits b' = chainHits (bots (drain g r) ! i) \<and>
          lastHitFrame b' = lastHitFrame (bots (drain g r) ! i) \<and>
          frameCount h - frameCount g < BOT_CHAIN_WINDOW \<longrightarrow>
            chainDrain h r' b' = chainDrain g r (bots g ! i) + 5 \<and>
            chainDrain g r (bots g ! i) < chainDrain h r' b') \<and>
         (lastHitFrame b' = lastHitFrame (bots (drain g r) ! i) \<and>
          BOT_CHAIN_WINDOW \<le> frameCount h - frameCount g \<longrightarrow>
            next_chainHits h b' = 1 \<and>
            (\<not> (gameMode h = Duel \<and> attacker r' = PlayerB) \<longrightarrow> chainDrain h r' b' = 5)) \<and>
         chainHits (bots (bot_rpm env i d g) ! i) =
           (if frameCount g - lastHitFrame (bots g ! i) > BOT_CHAIN_WINDOW then 0
            else chainHits (bots g ! i))"
proof -
  let ?b = "bots g ! i"
  let ?c = "bots (drain g r) ! i"
  have c: "?c = ?b\<lparr>rpm := max 0 (rpm ?b - chainDrain g r ?b), lastHitFrame := frameCount g,
                   chainHits := next_chainHits g ?b\<rparr>"
    using assms by (rule drain_bot)
  have c1: "chainHits ?c = next_chainHits g ?b" and c2: "lastHitFrame ?c = frameCount g"
    and c3: "rpm ?c = max 0 (rpm ?b - chainDrain g r ?b)"
    by (simp_all add: c)
  have p1: "chainHits ?c = (if frameCount g - lastHitFrame ?b < BOT_CHAIN_WINDOW
            then chainHits ?b + 1 else 1)"
    by (simp add: c1 next_chainHits_def)
  have p4: "chainDrain g r ?b = 5 + (real_of_int (chainHits ?c) - 1) * 5
             + (if gameMode g = Duel \<and> attacker r = PlayerB
                then 3 * sqrt ((fst (velocity (player g)))\<^sup>2 + (snd (velocity (player g)))\<^sup>2)
                else 0)"
    by (simp only: c1 chainDrain_formula)
  have p5: "chainDrain h r' b' = chainDrain g r ?b + 5 \<and> chainDrain g r ?b < chainDrain h r' b'"
    if "\<not> (gameMode g = Duel \<and> attacker r = PlayerB) \<and>
          \<not> (gameMode h = Duel \<and> attacker r' = PlayerB) \<and>
          chainHits b' = chainHits ?c \<and> lastHitFrame b' = lastHitFrame ?c \<and>
          frameCount h - frameCount g < BOT_CHAIN_WINDOW"
  proof -
    have n: "next_chainHits h b' = next_chainHits g ?b + 1"
      using that by (simp add: next_chainHits_def c1 c2)
    have dg: "chainDrain g r ?b = 5 + (real_of_int (next_chainHits g ?b) - 1) * 5"
      using that by (auto simp: chainDrain_formula)
    have dh: "chainDrain h r' b' = 5 + (real_of_int (next_chainHits h b') - 1) * 5"
      using that by (auto simp: chainDrain_formula)
    show ?thesis by (simp add: dg dh n)
  qed
  have p6: "next_chainHits h b' = 1 \<and>
            (\<not> (gameMode h = Duel \<and> attacker r' = PlayerB) \<longrightarrow> chainDrain h r' b' = 5)"
    if "lastHitFrame b' = lastHitFrame ?c \<and> BOT_CHAIN_WINDOW \<le> frameCount h - frameCount g"
  proof -
    have "next_chainHits h b' = 1" using that by (simp add: next_chainHits_def c2)
    then show ?thesis by (auto simp: chainDrain_formula)
  qed
  have p7: "chainHits (bots (bot_rpm env i d g) ! i) =
           (if frameCount g - lastHitFrame ?b > BOT_CHAIN_WINDOW then 0 else chainHits ?b)"
    using assms(2) by (simp add: bot_rpm_def Let_def)
  show ?thesis using p1 c2 c3 p4 p5 p6 p7 by blast
qed

theorem C5_chain_drain_witness:
  "assign_roles arena_start (PlayerB, BotB 0) =
     Some \<lparr>attacker = PlayerB, defender = BotB 0, attackerRPM = 50, defenderRPM = 60\<rparr> \<and>
   0 < length (bots arena_start) \<and>
   chainHits (bots (drain arena_start \<lparr>attacker = PlayerB, defender = BotB 0,
       attackerRPM = 50, defenderRPM = 60\<rparr>) ! 0) = 1 \<and>
   rpm (bots (drain arena_start \<lparr>attacker = PlayerB, defender = BotB 0,
       attackerRPM = 50, defenderRPM = 60\<rparr>) ! 0) = 55 \<and>
   chainDrain arena_start \<lparr>attacker = PlayerB, defender = BotB 0, attackerRPM = 50,
       defenderRPM = 60\<rparr> (bots arena_start ! 0) = 5 \<and>
   chainDrain (arena_start\<lparr>frameCount := 10\<rparr>)
       \<lparr>attacker = PlayerB, defender = BotB 0, attackerRPM = 50, defenderRPM = 55\<rparr>
       (bots (drain arena_start \<lparr>attacker = PlayerB, defender = BotB 0,
          attackerRPM = 50, defenderRPM = 60\<rparr>) ! 0) = 10 \<and>
   chainDrain (arena_start\<lparr>frameCount := 120\<rparr>)
       \<lparr>attacker = PlayerB, defender = BotB 0, attackerRPM = 50, defenderRPM = 55\<rparr>
       (bots (drain arena_start \<lparr>attacker = PlayerB, defender = BotB 0,
          attackerRPM = 50, defenderRPM = 60\<rparr>) ! 0) = 5"
proof -
  let ?r = "\<lparr>attacker = PlayerB, defender = BotB 0, attackerRPM = 50, defenderRPM = 60\<rparr>"
  let ?r' = "\<lparr>attacker = PlayerB, defender = BotB 0, attackerRPM = 50, defenderRPM = 55\<rparr>"
  let ?c = "drain arena_start ?r"
  have ro: "assign_roles arena_start (PlayerB, BotB 0) = Some ?r"
    by (simp add: assign_roles_def is_wall_def find_alive_def bots_arena_start arena_start_facts)
  have d: "defender ?r = BotB 0" and l: "0 < length (bots arena_start)"
    by (simp_all add: bots_arena_start)
  have f: "frameCount arena_start = 0" "gameMode arena_start = Arena"
    by (simp_all add: arena_start_def initGame_def)
  have b: "chainHits (bots arena_start ! 0) = 0" "lastHitFrame (bots arena_start ! 0) = - 999"
    "rpm (bots arena_start ! 0) = 60"
    by (simp_all add: bots_arena_start)
  note w1 = C5_chain_drain [OF d l, of "arena_start\<lparr>frameCount := 10\<rparr>" ?r' "bots ?c ! 0"]
  note w2 = C5_chain_drain [OF d l, of "arena_start\<lparr>frameCount := 120\<rparr>" ?r' "bots ?c ! 0"]
  have first: "chainHits (bots ?c ! 0) = 1 \<and> chainDrain arena_start ?r (bots arena_start ! 0) = 5
                 \<and> rpm (bots ?c ! 0) = 55"
    using w1 by (simp add: f b)
  have second: "chainDrain (arena_start\<lparr>frameCount := 10\<rparr>) ?r' (bots ?c ! 0) = 10"
    using w1 first by (simp add: f)
  have third: "chainDrain (arena_start\<lparr>frameCount := 120\<rparr>) ?r' (bots ?c ! 0) = 5"
    using w2 by (simp add: f)
  show ?thesis using ro first second third l by simp
qed

text \<open>
  C6 as stated makes the self-recoil half of the final knockback. A bot of RPM 70 hits a
  bot of RPM 30, which is in the wobble zone: the defender receives 170.6304, the
  attacker recoils with 56.8768, a third of it and not the half 85.3152.
\<close>

theorem C6_recoil_half_final_counterexample:
  "assign_roles wobble_clash (BotB 0, BotB (Suc 0)) =
     Some \<lparr>attacker = BotB 0, defender = BotB (Suc 0), attackerRPM = 70, defenderRPM = 30\<rparr> \<and>
   SWEET_HIGH < attackerRPM \<lparr>attacker = BotB 0, defender = BotB (Suc 0), attackerRPM = 70,
                              defenderRPM = 30\<rparr> \<and>
   collide_forces wobble_clash (BotB 0, BotB (Suc 0)) =
     [(BotB 0, (- 56.8768, 0)), (BotB (Suc 0), (170.6304, 0))] \<and>
   (56.8768 :: real) \<noteq> 170.6304 / 2"
proof -
  let ?r = "\<lparr>attacker = BotB 0, defender = BotB (Suc 0), attackerRPM = 70, defenderRPM = 30\<rparr>"
  have c: "collide_forces wobble_clash (BotB 0, BotB (Suc 0)) = knockback wobble_clash ?r"
    by (simp only: collide_forces_def roles_wobble_clash option.case)
  have k: "knockback wobble_clash ?r = [(BotB 0, (- 56.8768, 0)), (BotB (Suc 0), (170.6304, 0))]"
    unfolding knockback_def self_recoil_def Let_def
    by (simp add: normal_wobble_clash forces_wobble_clash)
  show ?thesis by (simp add: roles_wobble_clash c k)
qed

text \<open>
  C6, as amended. When the RPM of the attacker is at least the high threshold 60, the
  force is multiplied by 1.6 and the attacker receives a recoil against the knockback
  axis of half the force as it stands then, that is after the duel-boss factor 2 and the
  over-spin factor 1.6 and before the wobble factor 1.5 of the defender. The recoil is
  half of the final force when the defender is not in the wobble zone and a third of it
  when it is. The three factors enter in the order duel boss, over-spin, wobble.
\<close>

theorem C6_overspin_recoil:
  assumes "SWEET_HIGH \<le> attackerRPM r"
  shows "force_boss g r = force_base g r * (if isDuelBoss g r then 2 else 1) \<and>
         force_overspin g r = force_boss g r * 1.6 \<and>
         force_final g r = force_overspin g r * (if defenderRPM r < SWEET_LOW then 1.5 else 1) \<and>
         self_recoil g r =
           [(attacker r,
             (- fst (collision_normal (body_of g (attacker r)) (body_of g (defender r)))
                * force_overspin g r * 0.5,
              - snd (collision_normal (body_of g (attacker r)) (body_of g (defender r)))
                * force_overspin g r * 0.5))] \<and>
         knockback g r = self_recoil g r @
           [(defender r,
             (fst (collision_normal (body_of g (attacker r)) (body_of g (defender r)))
                * force_final g r,
              snd (collision_normal (body_of g (attacker r)) (body_of g (defender r)))
                * force_final g r))] \<and>
         (\<not> defenderRPM r < SWEET_LOW \<longrightarrow> force_overspin g r * 0.5 = force_final g r * 0.5) \<and>
         (defenderRPM r < SWEET_LOW \<longrightarrow> force_overspin g r * 0.5 = force_final g r / 3)"
  using assms
  by (simp add: force_boss_def force_overspin_def force_final_def self_recoil_def
        knockback_def Let_def)

theorem C6_overspin_recoil_witness:
  "SWEET_HIGH \<le> attackerRPM \<lparr>attacker = BotB 0, defender = BotB (Suc 0), attackerRPM = 70,
                              defenderRPM = 30\<rparr> \<and>
   force_overspin wobble_clash \<lparr>attacker = BotB 0, defender = BotB (Suc 0), attackerRPM = 70,
       defenderRPM = 30\<rparr> = 113.7536 \<and>
   force_final wobble_clash \<lparr>attacker = BotB 0, defender = BotB (Suc 0), attackerRPM = 70,
       defenderRPM = 30\<rparr> = 170.6304 \<and>
   self_recoil wobble_clash \<lparr>attacker = BotB 0, defender = BotB (Suc 0), attackerRPM = 70,
       defenderRPM = 30\<rparr> = [(BotB 0, (- 56.8768, 0))] \<and>
   knockback wobble_clash \<lparr>attacker = BotB 0, defender = BotB (Suc 0), attackerRPM = 70,
       defenderRPM = 30\<rparr> = [(BotB 0, (- 56.8768, 0)), (BotB (Suc 0), (170.6304, 0))] \<and>
   SWEET_HIGH \<le> attackerRPM \<lparr>attacker = BotB 0, defender = BotB (Suc 0), attackerRPM = 70,
                              defenderRPM = 50\<rparr> \<and>
   force_overspin wobble_clash \<lparr>attacker = BotB 0, defender = BotB (Suc 0), attackerRPM = 70,
       defenderRPM = 50\<rparr> * 0.5
     = force_final wobble_clash \<lparr>attacker = BotB 0, defender = BotB (Suc 0), attackerRPM = 70,
       defenderRPM = 50\<rparr> * 0.5"
proof -
  let ?r = "\<lparr>attacker = BotB 0, defender = BotB (Suc 0), attackerRPM = 70, defenderRPM = 30\<rparr>"
  let ?s = "\<lparr>attacker = BotB 0, defender = BotB (Suc 0), attackerRPM = 70, defenderRPM = 50\<rparr>"
  have a: "SWEET_HIGH \<le> attackerRPM ?r" and b: "SWEET_HIGH \<le> attackerRPM ?s" by simp_all
  note t = C6_overspin_recoil [OF a, of wobble_clash]
  note u = C6_overspin_recoil [OF b, of wobble_clash]
  have rec: "self_recoil wobble_clash ?r = [(BotB 0, (- 56.8768, 0))]"
    using t [THEN conjunct2, THEN conjunct2, THEN conjunct2, THEN conjunct1]
    by (simp add: normal_wobble_clash forces_wobble_clash)
  have kn: "knockback wobble_clash ?r = [(BotB 0, (- 56.8768, 0)), (BotB (Suc 0), (170.6304, 0))]"
    using t [THEN conjunct2, THEN conjunct2, THEN conjunct2, THEN conjunct2, THEN conjunct1]
    by (simp add: rec normal_wobble_clash forces_wobble_clash)
  have half: "force_overspin wobble_clash ?s * 0.5 = force_final wobble_clash ?s * 0.5"
    using u [THEN conjunct2, THEN conjunct2, THEN conjunct2, THEN conjunct2, THEN conjunct2,
             THEN conjunct1]
    by simp
  show ?thesis using rec kn half forces_wobble_clash by simp
qed

text \<open>
  C7. The loop over the bots eliminates a living bot whose RPM is not positive or which
  has left the arena. In duel mode, when the boss is eliminated in round 1 or 2 the round grows by one
  (to 2, then 3), the transition lock is set for 180 fixed steps, player and boss are
  put back on their start positions at rest, the player gets the starting RPM and the
  boss \<open>BOSS_RPM + 15 * round\<close>, which also becomes the boss maximum and exceeds the
  former one, the safe zone is back at its initial radius around the arena centre, and
  all projectiles are gone. While the lock is set a fixed step only counts the timer
  down, so 180 steps later the state is the one right after the reset with the lock
  cleared. When the boss is eliminated in round 3 the game is over with the player as
  winner, and nothing else changes but the boss being dead and the kill counter.
  The state \<open>g\<close> is any state that satisfies \<open>session_inv\<close>, as every state of a session
  does at the point where a bot is eliminated.
\<close>

theorem C7_duel_round_transition:
  assumes "session_inv g" and "gameMode g = Duel" and "i < length (bots g)"
  shows "(alive (bots g ! i) \<and>
          (rpm (bots g ! i) \<le> 0 \<or> ARENA_R + 50 < dist2Center (body (bots g ! i))) \<longrightarrow>
            bot_step env (g, n) i = (eliminate i g, n)) \<and>
         (duelRound g < 3 \<longrightarrow>
            duelRound (eliminate i g) = duelRound g + 1 \<and>
            (duelRound (eliminate i g) = 2 \<or> duelRound (eliminate i g) = 3) \<and>
            duelTransition (eliminate i g) \<and>
            duelTransitionTimer (eliminate i g) = DUEL_ROUND_TRANSITION_FRAMES \<and>
            player (eliminate i g) = \<lparr>position = (CX - 200, CY), velocity = (0, 0)\<rparr> \<and>
            currentRPM (eliminate i g) = STARTING_RPM \<and>
            bots (eliminate i g) ! i = (bots g ! i)
              \<lparr>alive := True, rpm := BOSS_RPM + real_of_int (duelRound g + 1) * 15,
               body := \<lparr>position = (CX + 200, CY), velocity = (0, 0)\<rparr>\<rparr> \<and>
            safeZone (eliminate i g) = SAFE_ZONE_INITIAL \<and>
            safeZoneCX (eliminate i g) = CX \<and> safeZoneCY (eliminate i g) = CY \<and>
            duelLasers (eliminate i g) = [] \<and> duelBombs (eliminate i g) = [] \<and>
            duelBossMaxRPM (eliminate i g) = BOSS_RPM + real_of_int (duelRound g + 1) * 15 \<and>
            duelBossMaxRPM g < duelBossMaxRPM (eliminate i g) \<and>
            gameOver (eliminate i g) = gameOver g \<and>
            (length envs = nat DUEL_ROUND_TRANSITION_FRAMES \<longrightarrow>
               foldl (\<lambda>h env. fixed_step False env h) (eliminate i g) envs
                 = (eliminate i g)\<lparr>duelTransitionTimer := 0, duelTransition := False\<rparr>)) \<and>
         (\<not> duelRound g < 3 \<longrightarrow>
            eliminate i g =
              g\<lparr>bots := (bots g)[i := (bots g ! i)\<lparr>alive := False\<rparr>],
                kills := kills g + 1,
                gameOver := True, gs_phase := GameOver, gs_isWinner := True\<rparr>) \<and>
         (duelTransition g \<longrightarrow>
            fixed_step False env g =
              g\<lparr>duelTransitionTimer := duelTransitionTimer g - 1,
                duelTransition := (1 < duelTransitionTimer g)\<rparr>)"
proof (intro conjI impI)
  assume "alive (bots g ! i) \<and>
          (rpm (bots g ! i) \<le> 0 \<or> ARENA_R + 50 < dist2Center (body (bots g ! i)))"
  then show "bot_step env (g, n) i = (eliminate i g, n)"
    by (simp add: bot_step_eliminates)
next
  assume a: "duelRound g < 3"
  note inv = assms(1)
  have e: "eliminate i g = g\<lparr>bots := (bots g)[i := (bots g ! i)
          \<lparr>alive := True, rpm := BOSS_RPM + real_of_int (duelRound g + 1) * 15,
           body := \<lparr>position = (CX + 200, CY), velocity = (0, 0)\<rparr>\<rparr>],
       kills := kills g + 1,
       duelRound := duelRound g + 1,
       duelTransition := True,
       duelTransitionTimer := DUEL_ROUND_TRANSITION_FRAMES,
       duelBossMaxRPM := BOSS_RPM + real_of_int (duelRound g + 1) * 15,
       player := \<lparr>position = (CX - 200, CY), velocity = (0, 0)\<rparr>,
       currentRPM := STARTING_RPM,
       safeZone := SAFE_ZONE_INITIAL,
       safeZoneCX := CX,
       safeZoneCY := CY,
       duelLasers := [],
       duelBombs := []\<rparr>"
    using assms(2,3) a by (intro eliminate_reset) simp_all
  show "duelRound (eliminate i g) = duelRound g + 1" by (simp add: e)
  show "duelRound (eliminate i g) = 2 \<or> duelRound (eliminate i g) = 3"
    using a inv by (auto simp: e session_inv_def)
  show "duelTransition (eliminate i g)" by (simp add: e)
  show "duelTransitionTimer (eliminate i g) = DUEL_ROUND_TRANSITION_FRAMES" by (simp add: e)
  show "player (eliminate i g) = \<lparr>position = (CX - 200, CY), velocity = (0, 0)\<rparr>"
    by (simp add: e)
  show "currentRPM (eliminate i g) = STARTING_RPM" by (simp add: e)
  show "bots (eliminate i g) ! i = (bots g ! i)
              \<lparr>alive := True, rpm := BOSS_RPM + real_of_int (duelRound g + 1) * 15,
               body := \<lparr>position = (CX + 200, CY), velocity = (0, 0)\<rparr>\<rparr>"
    using assms(3) by (simp add: e)
  show "safeZone (eliminate i g) = SAFE_ZONE_INITIAL" by (simp add: e)
  show "safeZoneCX (eliminate i g) = CX" by (simp add: e)
  show "safeZoneCY (eliminate i g) = CY" by (simp add: e)
  show "duelLasers (eliminate i g) = []" by (simp add: e)
  show "duelBombs (eliminate i g) = []" by (simp add: e)
  show "duelBossMaxRPM (eliminate i g) = BOSS_RPM + real_of_int (duelRound g + 1) * 15"
    by (simp add: e)
  show "duelBossMaxRPM g < duelBossMaxRPM (eliminate i g)"
    using a inv by (auto simp: e session_inv_def)
  show "gameOver (eliminate i g) = gameOver g" by (simp add: e)
  show "foldl (\<lambda>h env. fixed_step False env h) (eliminate i g) envs
          = (eliminate i g)\<lparr>duelTransitionTimer := 0, duelTransition := False\<rparr>"
    if "length envs = nat DUEL_ROUND_TRANSITION_FRAMES"
  proof (rule frozen_steps)
    show "duelTransition (eliminate i g)" by (simp add: e)
    show "duelTransitionTimer (eliminate i g) = int (length envs)" using that by (simp add: e)
    show "envs \<noteq> []" using that by auto
  qed
next
  assume "\<not> duelRound g < 3"
  then show "eliminate i g =
              g\<lparr>bots := (bots g)[i := (bots g ! i)\<lparr>alive := False\<rparr>],
                kills := kills g + 1,
                gameOver := True, gs_phase := GameOver, gs_isWinner := True\<rparr>"
    using assms(2) by (rule eliminate_final [rotated])
next
  assume "duelTransition g"
  then show "fixed_step False env g =
              g\<lparr>duelTransitionTimer := duelTransitionTimer g - 1,
                duelTransition := (1 < duelTransitionTimer g)\<rparr>"
    by (rule frozen_step)
qed

theorem C7_duel_round_transition_witness:
  "session_inv boss_down \<and> gameMode boss_down = Duel \<and> 0 < length (bots boss_down) \<and>
   alive (bots boss_down ! 0) \<and> rpm (bots boss_down ! 0) = 0 \<and>
   duelRound boss_down = 1 \<and> duelBossMaxRPM boss_down = 40 \<and>
   bot_step hit_env (boss_down, 0) 0 = (eliminate 0 boss_down, 0) \<and>
   animation_frame [hit_env] duel_start = eliminate 0 boss_down \<and>
   reachable (eliminate 0 boss_down) \<and>
   duelRound (eliminate 0 boss_down) = 2 \<and>
   duelTransition (eliminate 0 boss_down) \<and>
   duelTransitionTimer (eliminate 0 boss_down) = 180 \<and>
   player (eliminate 0 boss_down) = \<lparr>position = (400, 400), velocity = (0, 0)\<rparr> \<and>
   currentRPM boss_down = 49.6 \<and> currentRPM (eliminate 0 boss_down) = 50 \<and>
   rpm (bots (eliminate 0 boss_down) ! 0) = 70 \<and>
   alive (bots (eliminate 0 boss_down) ! 0) \<and>
   body (bots (eliminate 0 boss_down) ! 0) = \<lparr>position = (800, 400), velocity = (0, 0)\<rparr> \<and>
   safeZone (eliminate 0 boss_down) = 360 \<and>
   duelLasers (eliminate 0 boss_down) = [] \<and> duelBombs (eliminate 0 boss_down) = [] \<and>
   duelBossMaxRPM (eliminate 0 boss_down) = 70 \<and>
   foldl (\<lambda>h env. fixed_step False env h) (eliminate 0 boss_down) (replicate 180 still_env)
     = (eliminate 0 boss_down)\<lparr>duelTransitionTimer := 0, duelTransition := False\<rparr> \<and>
   duelTransitionTimer (fixed_step False still_env (eliminate 0 boss_down)) = 179 \<and>
   duelTransition (fixed_step False still_env (eliminate 0 boss_down)) \<and>
   session_inv duel_round3 \<and> gameMode duel_round3 = Duel \<and> duelRound duel_round3 = 3 \<and>
   gameOver (eliminate 0 duel_round3) \<and> gs_isWinner (eliminate 0 duel_round3) \<and>
   gs_phase (eliminate 0 duel_round3) = GameOver \<and>
   \<not> alive (bots (eliminate 0 duel_round3) ! 0) \<and>
   duelRound (eliminate 0 duel_round3) = 3 \<and> \<not> duelTransition (eliminate 0 duel_round3) \<and>
   currentRPM (eliminate 0 duel_round3) = currentRPM duel_round3 \<and>
   safeZone (eliminate 0 duel_round3) = safeZone duel_round3"
proof -
  note bd = boss_down_facts
  note a = C7_duel_round_transition [OF bd(1) bd(2) bd(3), of hit_env 0 "replicate 180 still_env"]
  have step: "bot_step hit_env (boss_down, 0) 0 = (eliminate 0 boss_down, 0)"
    using a [THEN conjunct1] by (simp add: bd)
  have run: "animation_frame [hit_env] duel_start = eliminate 0 boss_down"
    by (simp only: frame_hit eliminate_boss_down)
  have re: "reachable (eliminate 0 boss_down)"
    using reachable_hit by (simp only: run)
  have b0: "bots boss_down ! 0 = \<lparr>body = \<lparr>position = (CX + 40, CY), velocity = (0, 0)\<rparr>,
              rpm = 0, alive = True, lastHitFrame = 1, chainHits = 4\<rparr>"
    by (simp add: boss_down_def)
  have first: "duelRound (eliminate 0 boss_down) = 2 \<and>
   duelTransition (eliminate 0 boss_down) \<and>
   duelTransitionTimer (eliminate 0 boss_down) = 180 \<and>
   player (eliminate 0 boss_down) = \<lparr>position = (400, 400), velocity = (0, 0)\<rparr> \<and>
   currentRPM (eliminate 0 boss_down) = 50 \<and>
   rpm (bots (eliminate 0 boss_down) ! 0) = 70 \<and>
   alive (bots (eliminate 0 boss_down) ! 0) \<and>
   body (bots (eliminate 0 boss_down) ! 0) = \<lparr>position = (800, 400), velocity = (0, 0)\<rparr> \<and>
   safeZone (eliminate 0 boss_down) = 360 \<and>
   duelLasers (eliminate 0 boss_down) = [] \<and> duelBombs (eliminate 0 boss_down) = [] \<and>
   duelBossMaxRPM (eliminate 0 boss_down) = 70 \<and>
   foldl (\<lambda>h env. fixed_step False env h) (eliminate 0 boss_down) (replicate 180 still_env)
     = (eliminate 0 boss_down)\<lparr>duelTransitionTimer := 0, duelTransition := False\<rparr>"
    using a [THEN conjunct2, THEN conjunct1] by (simp add: bd b0)
  have e1: "session_inv (eliminate 0 boss_down)" using re by (rule reachable_inv)
  have e2: "gameMode (eliminate 0 boss_down) = Duel" by (simp add: eliminate_def Let_def bd)
  have e3: "0 < length (bots (eliminate 0 boss_down))"
    using bd(3) by (simp only: length_eliminate)
  note c = C7_duel_round_transition [OF e1 e2 e3, of still_env 0 "[]"]
  have frozen: "duelTransitionTimer (fixed_step False still_env (eliminate 0 boss_down)) = 179 \<and>
   duelTransition (fixed_step False still_env (eliminate 0 boss_down))"
    using c [THEN conjunct2, THEN conjunct2, THEN conjunct2] first by simp
  have d3: "session_inv duel_round3" "gameMode duel_round3 = Duel" "0 < length (bots duel_round3)"
    and r3: "duelRound duel_round3 = 3" and t3: "\<not> duelTransition duel_round3"
    by (simp_all add: duel_round3_def duel_start_mode bots_duel_start duel_start_facts
          session_inv_def all_bots_ok_def bot_ok_def boss_bot_def)
  note b = C7_duel_round_transition [OF d3, of still_env 0 "[]"]
  have third: "gameOver (eliminate 0 duel_round3) \<and> gs_isWinner (eliminate 0 duel_round3) \<and>
   gs_phase (eliminate 0 duel_round3) = GameOver \<and>
   \<not> alive (bots (eliminate 0 duel_round3) ! 0) \<and>
   duelRound (eliminate 0 duel_round3) = 3 \<and> \<not> duelTransition (eliminate 0 duel_round3) \<and>
   currentRPM (eliminate 0 duel_round3) = currentRPM duel_round3 \<and>
   safeZone (eliminate 0 duel_round3) = safeZone duel_round3"
    using b [THEN conjunct2, THEN conjunct2, THEN conjunct1] d3(3) by (simp add: r3 t3)
  show ?thesis
    using step run re first frozen third d3 r3 bd by simp
qed

text \<open>
  C8 as stated has a key-down event of the lockout recorded in the key set. The frame
  in which the boss of round 1 is eliminated leaves the lock set; a press of W then
  leaves the key set empty.
\<close>

theorem C8_key_not_recorded_counterexample:
  "reachable (animation_frame [hit_env] duel_start) \<and>
   duelTransition (animation_frame [hit_env] duel_start) \<and>
   ''w'' \<notin> keys (onKeyDown ''w'' (animation_frame [hit_env] duel_start)) \<and>
   keys (onKeyDown ''w'' (animation_frame [hit_env] duel_start)) = {}"
  using reachable_hit by (simp add: onKeyDown_locked hit_frame_facts)

text \<open>
  C8, as amended. A key-down event that arrives while the transition lock is set is
  dropped: the state is unchanged, so the key is not recorded, the RPM does not grow and
  the last spin key stays. A fixed step under the lock only counts the timer down and
  applies no movement.
\<close>

theorem C8_input_during_lockout:
  assumes "duelTransition g"
  shows "onKeyDown key g = g \<and>
         keys (onKeyDown key g) = keys g \<and>
         currentRPM (onKeyDown key g) = currentRPM g \<and>
         lastSpinKey (onKeyDown key g) = lastSpinKey g \<and>
         fixed_step False env (onKeyDown key g) =
           g\<lparr>duelTransitionTimer := duelTransitionTimer g - 1,
             duelTransition := (1 < duelTransitionTimer g)\<rparr>"
  using assms by (simp add: onKeyDown_locked frozen_step)

theorem C8_input_during_lockout_witness:
  "reachable (animation_frame [hit_env] duel_start) \<and>
   duelTransition (animation_frame [hit_env] duel_start) \<and>
   onKeyDown ''j'' (animation_frame [hit_env] duel_start)
     = animation_frame [hit_env] duel_start \<and>
   keys (onKeyDown ''w'' (animation_frame [hit_env] duel_start)) = {} \<and>
   currentRPM (onKeyDown ''j'' (animation_frame [hit_env] duel_start)) = 50 \<and>
   lastSpinKey (onKeyDown ''j'' (animation_frame [hit_env] duel_start)) = [] \<and>
   duelTransitionTimer
     (fixed_step False still_env (onKeyDown ''j'' (animation_frame [hit_env] duel_start)))
     = 179"
proof -
  let ?e = "animation_frame [hit_env] duel_start"
  have d: "duelTransition ?e" by (simp add: hit_frame_facts)
  note j = C8_input_during_lockout [OF d, of "''j''" still_env]
  note w = C8_input_during_lockout [OF d, of "''w''" still_env]
  have j1: "onKeyDown ''j'' ?e = ?e" using j by (rule conjunct1)
  have w2: "keys (onKeyDown ''w'' ?e) = keys ?e"
    using w [THEN conjunct2] by (rule conjunct1)
  have j3: "currentRPM (onKeyDown ''j'' ?e) = currentRPM ?e"
    using j [THEN conjunct2, THEN conjunct2] by (rule conjunct1)
  have j4: "lastSpinKey (onKeyDown ''j'' ?e) = lastSpinKey ?e"
    using j [THEN conjunct2, THEN conjunct2, THEN conjunct2] by (rule conjunct1)
  have j5: "fixed_step False still_env (onKeyDown ''j'' ?e) =
              ?e\<lparr>duelTransitionTimer := duelTransitionTimer ?e - 1,
                 duelTransition := (1 < duelTransitionTimer ?e)\<rparr>"
    using j [THEN conjunct2, THEN conjunct2, THEN conjunct2] by (rule conjunct2)
  have t: "duelTransitionTimer (fixed_step False still_env (onKeyDown ''j'' ?e)) = 179"
    by (simp add: j5 hit_frame_facts)
  show ?thesis using t reachable_hit
    by (simp add: d j1 w2 j3 j4 hit_frame_facts)
qed

text \<open>
  C9 as stated asks for a unit vector when the two positions coincide. There the
  guard makes the divisor 1, so the direction is the zero vector, whose length is 0.
\<close>

theorem C9_unit_vector_counterexample:
  "position (player duel_start) = position (player duel_start) \<and>
   collision_normal (player duel_start) (player duel_start) = (0, 0) \<and>
   (fst (collision_normal (player duel_start) (player duel_start)))\<^sup>2
     + (snd (collision_normal (player duel_start) (player duel_start)))\<^sup>2 \<noteq> 1"
  by (simp add: collision_normal_def collision_dist_def Let_def or1_def)

text \<open>
  C9, as amended. The normalisations guarded by \<^verbatim>\<open>|| 1\<close> (knockback axis of the
  collision handler, steering of a bot towards the safe zone) never divide by zero: the
  divisor is not zero. For two coincident positions the divisor is 1 and the direction
  is the zero vector; for distinct positions the direction is a unit vector.
\<close>

theorem C9_guarded_normalisation:
  "collision_dist a d \<noteq> 0 \<and> survival_dist g b \<noteq> 0 \<and>
   (position a = position d \<longrightarrow>
      collision_dist a d = 1 \<and> collision_normal a d = (0, 0)) \<and>
   (position a \<noteq> position d \<longrightarrow>
      (fst (collision_normal a d))\<^sup>2 + (snd (collision_normal a d))\<^sup>2 = 1) \<and>
   (position (body b) = (safeZoneCX g, safeZoneCY g) \<longrightarrow>
      survival_dist g b = 1 \<and> survival_dir g b = (0, 0)) \<and>
   (position (body b) \<noteq> (safeZoneCX g, safeZoneCY g) \<longrightarrow>
      (fst (survival_dir g b))\<^sup>2 + (snd (survival_dir g b))\<^sup>2 = 1)"
proof (intro conjI impI)
  show "collision_dist a d \<noteq> 0" by (simp add: collision_dist_def Let_def or1_sqrt_nonzero)
  show "survival_dist g b \<noteq> 0" by (simp add: survival_dist_def Let_def or1_sqrt_nonzero)
next
  assume "position a = position d"
  then show "collision_dist a d = 1" "collision_normal a d = (0, 0)"
    by (simp_all add: collision_normal_def collision_dist_def Let_def or1_def)
next
  assume "position a \<noteq> position d"
  then have "fst (position d) - fst (position a) \<noteq> 0 \<or> snd (position d) - snd (position a) \<noteq> 0"
    by (auto simp: prod_eq_iff)
  then show "(fst (collision_normal a d))\<^sup>2 + (snd (collision_normal a d))\<^sup>2 = 1"
    unfolding collision_normal_def collision_dist_def Let_def fst_conv snd_conv
    by (rule or1_unit)
next
  assume "position (body b) = (safeZoneCX g, safeZoneCY g)"
  then show "survival_dist g b = 1" "survival_dir g b = (0, 0)"
    by (simp_all add: survival_dir_def survival_dist_def Let_def or1_def)
next
  assume "position (body b) \<noteq> (safeZoneCX g, safeZoneCY g)"
  then have "safeZoneCX g - fst (position (body b)) \<noteq> 0 \<or> safeZoneCY g - snd (position (body b)) \<noteq> 0"
    by (auto simp: prod_eq_iff)
  then show "(fst (survival_dir g b))\<^sup>2 + (snd (survival_dir g b))\<^sup>2 = 1"
    unfolding survival_dir_def survival_dist_def Let_def fst_conv snd_conv
    by (rule or1_unit)
qed

theorem C9_guarded_normalisation_witness:
  "collision_dist (player duel_start) (player duel_start) = 1 \<and>
   collision_normal (player duel_start) (player duel_start) = (0, 0) \<and>
   position (player duel_start) \<noteq> position (body boss_bot) \<and>
   collision_dist (player duel_start) (body boss_bot) \<noteq> 0 \<and>
   collision_normal (player duel_start) (body boss_bot) = (1, 0) \<and>
   (fst (collision_normal (player duel_start) (body boss_bot)))\<^sup>2
     + (snd (collision_normal (player duel_start) (body boss_bot)))\<^sup>2 = 1 \<and>
   position (body boss_bot) \<noteq> (safeZoneCX duel_start, safeZoneCY duel_start) \<and>
   survival_dist duel_start boss_bot \<noteq> 0 \<and>
   (fst (survival_dir duel_start boss_bot))\<^sup>2 + (snd (survival_dir duel_start boss_bot))\<^sup>2 = 1"
proof -
  have p: "position (player duel_start) = (600, 400)" "position (body boss_bot) = (800, 400)"
    "safeZoneCX duel_start = 600" "safeZoneCY duel_start = 400"
    by (simp_all add: duel_start_def initGame_def boss_bot_def)
  have n: "collision_normal (player duel_start) (body boss_bot) = (1, 0)"
    by (simp add: collision_normal_def collision_dist_def Let_def or1_def p)
  show ?thesis
    using C9_guarded_normalisation [of "player duel_start" "player duel_start" duel_start boss_bot]
          C9_guarded_normalisation [of "player duel_start" "body boss_bot" duel_start boss_bot]
    by (simp add: p n)
qed

text \<open>
  C10. The spin energy of a bot, the duel boss included, never exceeds 90: in every
  reachable state it lies in \<open>[0, 90]\<close>, because every gain of a bot (regular spin,
  emergency spin, passive regeneration) is capped at 90. The bots of the start of a
  match and a bot spawned in survival mode have at most 70, and the boss is reset to at
  most 85.
\<close>

theorem C10_bot_rpm_at_most_90:
  assumes "reachable g"
  shows "(\<forall>b \<in> set (bots g). 0 \<le> rpm b \<and> rpm b \<le> 90) \<and>
         (init_ok ie \<longrightarrow> (\<forall>b \<in> set (bots (initGame mode n ie)). rpm b \<le> 70)) \<and>
         (env_ok env \<and> gameMode s = Survival \<and> nextBotSpawnFrame s \<le> frameCount s \<and>
          playerAlive s \<longrightarrow> rpm (last (bots (survival_spawn env s))) \<le> 70) \<and>
         (gameMode d = Duel \<and> duelRound d < 3 \<and> i < length (bots d) \<longrightarrow>
            rpm (bots (eliminate i d) ! i) \<le> 85)"
proof (intro conjI impI)
  have "session_inv g" using assms by (rule reachable_inv)
  then have "\<forall>b \<in> set (bots g). bot_ok b" by (simp add: session_inv_def all_bots_ok_def)
  then show "\<forall>b \<in> set (bots g). 0 \<le> rpm b \<and> rpm b \<le> 90" by (auto simp: bot_ok_def)
next
  assume "init_ok ie"
  then show "\<forall>b \<in> set (bots (initGame mode n ie)). rpm b \<le> 70"
    using start_rpm_below_70 [of ie _ mode n] by (auto simp: less_imp_le)
next
  assume "env_ok env \<and> gameMode s = Survival \<and> nextBotSpawnFrame s \<le> frameCount s \<and>
          playerAlive s"
  then show "rpm (last (bots (survival_spawn env s))) \<le> 70"
    using spawn_rpm_below_70 [of env s] by simp
next
  assume "gameMode d = Duel \<and> duelRound d < 3 \<and> i < length (bots d)"
  then show "rpm (bots (eliminate i d) ! i) \<le> 85"
    using reset_rpm_at_most_85 [of d i] by simp
qed

theorem C10_bot_rpm_at_most_90_witness:
  "reachable (animation_frame [hit_env] duel_start) \<and>
   bots (animation_frame [hit_env] duel_start) \<noteq> [] \<and>
   rpm (hd (bots (animation_frame [hit_env] duel_start))) = 70 \<and>
   0 \<le> rpm (hd (bots (animation_frame [hit_env] duel_start))) \<and>
   rpm (hd (bots (animation_frame [hit_env] duel_start))) \<le> 90 \<and>
   init_ok ie1 \<and> bots arena_start \<noteq> [] \<and>
   rpm (hd (bots arena_start)) = 60 \<and> rpm (hd (bots arena_start)) \<le> 70 \<and>
   env_ok still_env \<and> gameMode survival_due = Survival \<and>
   nextBotSpawnFrame survival_due \<le> frameCount survival_due \<and> playerAlive survival_due \<and>
   rpm (last (bots (survival_spawn still_env survival_due))) = 55 \<and>
   rpm (last (bots (survival_spawn still_env survival_due))) \<le> 70 \<and>
   gameMode boss_down = Duel \<and> duelRound boss_down < 3 \<and> 0 < length (bots boss_down) \<and>
   rpm (bots (eliminate 0 boss_down) ! 0) = 70 \<and>
   rpm (bots (eliminate 0 boss_down) ! 0) \<le> 85"
proof -
  let ?h = "animation_frame [hit_env] duel_start"
  note t = C10_bot_rpm_at_most_90 [OF reachable_hit, of ie1 Arena 1 still_env survival_due
             boss_down 0]
  have hb: "bots ?h = [\<lparr>body = \<lparr>position = (CX + 200, CY), velocity = (0, 0)\<rparr>, rpm = 70,
                          alive = True, lastHitFrame = 1, chainHits = 4\<rparr>]"
    unfolding frame_hit boss_eliminated_in_a_step by simp
  have one: "0 \<le> rpm (hd (bots ?h)) \<and> rpm (hd (bots ?h)) \<le> 90"
    using t [THEN conjunct1] by (simp add: hb)
  have two: "rpm (hd (bots arena_start)) \<le> 70"
    using t [THEN conjunct2, THEN conjunct1] init_ok_ie1
    by (simp add: arena_start_def [symmetric] bots_arena_start)
  have sd: "gameMode survival_due = Survival" "nextBotSpawnFrame survival_due \<le> frameCount survival_due"
    "playerAlive survival_due"
    by (simp_all add: survival_due_def initGame_def)
  have three: "rpm (last (bots (survival_spawn still_env survival_due))) \<le> 70"
    using t [THEN conjunct2, THEN conjunct2, THEN conjunct1] env_ok_still sd by simp
  have four: "rpm (bots (eliminate 0 boss_down) ! 0) \<le> 85"
    using t [THEN conjunct2, THEN conjunct2, THEN conjunct2] boss_down_facts by simp
  have v3: "rpm (last (bots (survival_spawn still_env survival_due))) = 55"
    by (simp add: survival_spawn_def Let_def sd still_env_def)
  have v4: "rpm (bots (eliminate 0 boss_down) ! 0) = 70"
    using boss_down_facts by (simp add: reset_rpm_at_most_85)
  show ?thesis
    using reachable_hit one two three four v3 v4 init_ok_ie1 env_ok_still sd boss_down_facts
    by (simp add: hb bots_arena_start)
qed

end
